theory Spec2Isabelle
  imports Complex_Main "HOL-Library.Sublist"
begin

section \<open>Data model of the synchronisation service (trpc.service.ts)\<close>

text \<open>
  Modelled from the spec: the constants \<open>statusMap.ENABLE\<close>, \<open>statusMap.INVALID\<close> and
  \<open>statusMap.DISABLE\<close> are imported from \<open>@server/constants\<close>, which is not part of
  the sources at hand. Only their symbolic names are used by the service, so the status
  column is a datatype with one constructor per name.
\<close>

datatype status = ENABLE | INVALID | DISABLE

text \<open>Rows of the three Prisma tables the service reads and writes.\<close>

record account =
  account_id :: string
  account_token :: string
  account_status :: status

record feed =
  feed_id :: string
  feed_status :: status
  feed_syncTime :: int
  feed_hasHistory :: int

record article =
  article_id :: string
  article_mpId :: string
  article_picUrl :: string
  article_publishTime :: int
  article_title :: string

text \<open>One element of the upstream answer of \<open>/api/v2/platform/mps/:id/articles\<close>.
  \<open>publishTime\<close> is a JavaScript number parsed from JSON; the model keeps it as
  an integer, which agrees with the code for values of magnitude up to \<open>2^53\<close>.\<close>

record upstream_article =
  ua_id :: string
  ua_title :: string
  ua_picUrl :: string
  ua_publishTime :: int

text \<open>
  The messages of the results are fixed literals of the source with the feed id spliced
  in; they are kept symbolic.
\<close>

datatype message =
    MsgFeedUpdated string
  | MsgFeedUpdateFailed string
  | MsgAlreadyRunning
  | MsgNoEnabledFeeds
  | MsgUpdateFinished
  | MsgUnexpectedError

text \<open>
  \<open>RefreshArticlesResult\<close>; the bulk refresh returns the same type without
  \<open>articlesCount\<close> and never sets the optional \<open>hasHistory\<close>, which is the base record.
\<close>

record RefreshAllResult =
  message :: message
  successCount :: int
  errorCount :: int
  failedFeeds :: "string list"

record RefreshArticlesResult = RefreshAllResult +
  hasHistory :: "int option"
  articlesCount :: int

text \<open>The object \<open>inProgressHistoryMp\<close>: fields \<open>id\<close> and \<open>page\<close>.\<close>

record history_mp =
  hist_id :: string
  hist_page :: int

text \<open>
  The mutable state: the three tables, the module-level \<open>blockedAccountsMap\<close>, the two
  fields of the service object that the long-running operations share, and a logical
  clock \<open>tick\<close> that counts the interactions with the outside (database calls, upstream
  requests, draws of \<open>Math.random\<close>) made so far.
\<close>

record world =
  accounts :: "account list"
  feeds :: "feed list"
  articles :: "article list"
  blockedAccountsMap :: "string \<rightharpoonup> string list"
  inProgressHistoryMp :: history_mp
  isRefreshAllMpArticlesRunning :: bool
  tick :: nat

text \<open>What an upstream request settles with: the data, or a rejection whose
  \<open>error.response?.data?.message || ''\<close> is the given string.\<close>

datatype http_response = HttpOk "upstream_article list" | HttpError string

text \<open>
  Everything the service takes from outside. \<open>defaultCount\<close> is the page size imported
  from \<open>@server/constants\<close> (not among the sources, hence a parameter); \<open>sqlite\<close> is
  the configuration test \<open>type === 'sqlite'\<close>. The remaining fields are indexed by the
  logical clock: the value \<open>Math.random()\<close> returns, the answer of the upstream, the
  value of \<open>Math.floor(Date.now() / 1e3)\<close>, the string \<open>getTodayDate()\<close> formats, and
  whether the database call made at that instant is rejected by the storage layer.
\<close>

record env =
  defaultCount :: nat
  sqlite :: bool
  random :: "nat \<Rightarrow> real"
  upstream :: "nat \<Rightarrow> string option \<Rightarrow> string \<Rightarrow> int \<Rightarrow> http_response"
  now_seconds :: "nat \<Rightarrow> int"
  today_string :: "nat \<Rightarrow> string"
  db_fault :: "nat \<Rightarrow> bool"

text \<open>Exceptions as values.\<close>

datatype error =
    NoAvailableAccount
  | UpstreamFailed string
  | RecordNotFound
  | DbFault
  | TypeErrorUndefined

type_synonym 'a outcome = "(error + 'a) \<times> world"

section \<open>Storage calls\<close>

text \<open>A Prisma call: it advances the clock and is rejected when the storage layer
  fails at that instant; otherwise the operation runs.\<close>

definition prisma :: "env \<Rightarrow> (world \<Rightarrow> 'a outcome) \<Rightarrow> world \<Rightarrow> 'a outcome" where
  "prisma e operation w =
     (let w' = w\<lparr>tick := tick w + 1\<rparr>
      in if db_fault e (tick w) then (Inl DbFault, w') else operation w')"

text \<open>\<open>try { body } catch (error) { handler }\<close> on outcomes.\<close>

definition try_catch :: "'a outcome \<Rightarrow> (error \<Rightarrow> world \<Rightarrow> 'a outcome) \<Rightarrow> 'a outcome" where
  "try_catch body handler =
     (case body of (Inl err, w) \<Rightarrow> handler err w | (Inr v, w) \<Rightarrow> (Inr v, w))"

text \<open>\<open>account.update({ where: { id }, data: { status } })\<close>: rejected when no row has
  the id (also when the id is undefined).\<close>

definition account_update :: "env \<Rightarrow> string option \<Rightarrow> status \<Rightarrow> world \<Rightarrow> unit outcome" where
  "account_update e xid s =
     prisma e (\<lambda>w. case xid of
        None \<Rightarrow> (Inl RecordNotFound, w)
      | Some i \<Rightarrow>
          if i \<in> account_id ` set (accounts w)
          then (Inr (), w\<lparr>accounts :=
                  map (\<lambda>a. if account_id a = i then a\<lparr>account_status := s\<rparr> else a) (accounts w)\<rparr>)
          else (Inl RecordNotFound, w))"

text \<open>\<open>account.findMany({ where: { status: ENABLE, NOT: { id: { in: disabledAccounts } } },
  take: 10 })\<close>.\<close>

definition account_findMany :: "env \<Rightarrow> string list \<Rightarrow> world \<Rightarrow> account list outcome" where
  "account_findMany e disabledAccounts =
     prisma e (\<lambda>w. (Inr (take 10 (filter
        (\<lambda>a. account_status a = ENABLE \<and> account_id a \<notin> set disabledAccounts) (accounts w))), w))"

section \<open>The daily quarantine and the response interceptor\<close>

definition getTodayDate :: "env \<Rightarrow> world \<Rightarrow> string" where
  "getTodayDate e w = today_string e (tick w)"

text \<open>\<open>errMsg.includes(marker)\<close>.\<close>

definition str_includes :: "string \<Rightarrow> string \<Rightarrow> bool" where
  "str_includes errMsg marker = sublist marker errMsg"

text \<open>
  Lines 72 to 82 of the interceptor: an expired login disables the account; the
  rate-limit marker is only logged.
\<close>

definition interceptor_classify :: "env \<Rightarrow> string \<Rightarrow> string option \<Rightarrow> world \<Rightarrow> unit outcome" where
  "interceptor_classify e errMsg xid w =
     (if str_includes errMsg ''WeReadError401'' then account_update e xid INVALID w
      else (Inr (), w))"

text \<open>
  Lines 84 to 100 of the interceptor, the quarantine step. \<open>Array.isArray\<close> holds
  exactly when the map has an entry for today; \<open>if (id)\<close> holds for a defined,
  non-empty id. The two other branches only log (and wait ten seconds), which changes
  nothing of the state.
\<close>

definition interceptor_quarantine :: "env \<Rightarrow> string \<Rightarrow> string option \<Rightarrow> world \<Rightarrow> world" where
  "interceptor_quarantine e errMsg xid w =
     (let today = getTodayDate e w
      in case blockedAccountsMap w today of
           Some blockedAccounts \<Rightarrow>
             (let blockedAccounts' =
                    (case xid of
                       Some i \<Rightarrow> if i \<noteq> [] then blockedAccounts @ [i] else blockedAccounts
                     | None \<Rightarrow> blockedAccounts)
              in w\<lparr>blockedAccountsMap := (blockedAccountsMap w)(today \<mapsto> blockedAccounts')\<rparr>)
         | None \<Rightarrow> w)"

text \<open>
  The rejection handler of the response interceptor. It always rejects: with the
  original failure, or with the failure of the account update when that one throws
  (the quarantine step is then not reached).
\<close>

definition interceptor_onRejected :: "env \<Rightarrow> string \<Rightarrow> string option \<Rightarrow> world \<Rightarrow> error \<times> world" where
  "interceptor_onRejected e errMsg xid w =
     (case interceptor_classify e errMsg xid w of
        (Inl err, w1) \<Rightarrow> (err, w1)
      | (Inr _, w1) \<Rightarrow> (UpstreamFailed errMsg, interceptor_quarantine e errMsg xid w1))"

definition removeBlockedAccount :: "env \<Rightarrow> string \<Rightarrow> world \<Rightarrow> world" where
  "removeBlockedAccount e vid w =
     (let today = getTodayDate e w
      in case blockedAccountsMap w today of
           Some blockedAccounts \<Rightarrow>
             w\<lparr>blockedAccountsMap :=
                 (blockedAccountsMap w)(today \<mapsto> filter (\<lambda>i. i \<noteq> vid) blockedAccounts)\<rparr>
         | None \<Rightarrow> w)"

definition getBlockedAccountIds :: "env \<Rightarrow> world \<Rightarrow> string list" where
  "getBlockedAccountIds e w =
     filter (\<lambda>i. i \<noteq> [])
       (case blockedAccountsMap w (getTodayDate e w) of None \<Rightarrow> [] | Some l \<Rightarrow> l)"

section \<open>Selecting an account\<close>

text \<open>
  \<open>getAvailableAccount\<close>. The index is \<open>Math.floor(Math.random() * account.length)\<close>;
  reading an array outside its range gives \<open>undefined\<close>, which is the result \<open>None\<close>
  (it needs a draw outside \<open>[0, 1)\<close>).
\<close>

definition getAvailableAccount :: "env \<Rightarrow> world \<Rightarrow> account option outcome" where
  "getAvailableAccount e w =
     (let disabledAccounts = getBlockedAccountIds e w
      in case account_findMany e disabledAccounts w of
           (Inl err, w1) \<Rightarrow> (Inl err, w1)
         | (Inr account, w1) \<Rightarrow>
             if account = [] then (Inl NoAvailableAccount, w1)
             else (let k = \<lfloor>random e (tick w1) * real (length account)\<rfloor>;
                       w2 = w1\<lparr>tick := tick w1 + 1\<rparr>
                   in if 0 \<le> k \<and> k < int (length account)
                      then (Inr (Some (account ! nat k)), w2)
                      else (Inr None, w2)))"

section \<open>Fetching one page\<close>

text \<open>
  One request through the Axios instance with the header \<open>xid\<close>: the upstream answers
  at the current instant; a rejection runs the interceptor before it reaches the caller.
\<close>

definition request_get ::
  "env \<Rightarrow> string option \<Rightarrow> string \<Rightarrow> int \<Rightarrow> world \<Rightarrow> upstream_article list outcome" where
  "request_get e xid mpId page w =
     (let w1 = w\<lparr>tick := tick w + 1\<rparr>
      in case upstream e (tick w) xid mpId page of
           HttpOk res \<Rightarrow> (Inr res, w1)
         | HttpError errMsg \<Rightarrow>
             (case interceptor_onRejected e errMsg xid w1 of (err, w2) \<Rightarrow> (Inl err, w2)))"

text \<open>
  \<open>getMpArticles(mpId, page, retryCount)\<close>. The account is drawn before the
  \<open>try\<close>, so a failure of the selection is not retried; inside the \<open>try\<close>, reading
  \<open>account.id\<close> of an undefined account and a rejected request are caught and retried
  while \<open>retryCount > 0\<close>, each time with a fresh draw.
\<close>

fun getMpArticles ::
  "env \<Rightarrow> string \<Rightarrow> int \<Rightarrow> nat \<Rightarrow> world \<Rightarrow> upstream_article list outcome" where
  "getMpArticles e mpId page retryCount w =
     (case getAvailableAccount e w of
        (Inl err, w1) \<Rightarrow> (Inl err, w1)
      | (Inr account, w1) \<Rightarrow>
          (case (case account of
                   None \<Rightarrow> (Inl TypeErrorUndefined, w1)
                 | Some a \<Rightarrow> request_get e (Some (account_id a)) mpId page w1) of
             (Inr res, w2) \<Rightarrow> (Inr res, w2)
           | (Inl err, w2) \<Rightarrow>
               if retryCount > 0 then getMpArticles e mpId page (retryCount - 1) w2
               else (Inl err, w2)))"

declare getMpArticles.simps [simp del]

section \<open>Storing a page and updating the feed\<close>

text \<open>\<open>article.upsert\<close>: an existing row gets \<open>publishTime\<close> and \<open>title\<close>, a new id is
  created with all five fields.\<close>

definition article_upsert :: "string \<Rightarrow> upstream_article \<Rightarrow> article list \<Rightarrow> article list" where
  "article_upsert mpId a rows =
     (if ua_id a \<in> article_id ` set rows
      then map (\<lambda>r. if article_id r = ua_id a
                     then r\<lparr>article_publishTime := ua_publishTime a, article_title := ua_title a\<rparr>
                     else r) rows
      else rows @ [\<lparr>article_id = ua_id a, article_mpId = mpId, article_picUrl = ua_picUrl a,
                     article_publishTime = ua_publishTime a, article_title = ua_title a\<rparr>])"

text \<open>\<open>$transaction(inserts)\<close>: the upserts in order, as one storage call.\<close>

definition article_upsert_transaction ::
  "env \<Rightarrow> string \<Rightarrow> upstream_article list \<Rightarrow> world \<Rightarrow> unit outcome" where
  "article_upsert_transaction e mpId as =
     prisma e (\<lambda>w. (Inr (), w\<lparr>articles := foldl (\<lambda>rows a. article_upsert mpId a rows) (articles w) as\<rparr>))"

text \<open>\<open>createMany({ data, skipDuplicates: true })\<close>: a row whose id is already stored
  is skipped.\<close>

definition article_create_skip :: "string \<Rightarrow> upstream_article \<Rightarrow> article list \<Rightarrow> article list" where
  "article_create_skip mpId a rows =
     (if ua_id a \<in> article_id ` set rows then rows
      else rows @ [\<lparr>article_id = ua_id a, article_mpId = mpId, article_picUrl = ua_picUrl a,
                     article_publishTime = ua_publishTime a, article_title = ua_title a\<rparr>])"

definition article_createMany ::
  "env \<Rightarrow> string \<Rightarrow> upstream_article list \<Rightarrow> world \<Rightarrow> unit outcome" where
  "article_createMany e mpId as =
     prisma e (\<lambda>w. (Inr (), w\<lparr>articles := foldl (\<lambda>rows a. article_create_skip mpId a rows) (articles w) as\<rparr>))"

text \<open>Lines 193 to 228: a page with articles is written, by the means the database
  type allows; an empty page leaves the storage alone.\<close>

definition store_articles :: "env \<Rightarrow> string \<Rightarrow> upstream_article list \<Rightarrow> world \<Rightarrow> unit outcome" where
  "store_articles e mpId as w =
     (if length as > 0
      then (if sqlite e then article_upsert_transaction e mpId as w
            else article_createMany e mpId as w)
      else (Inr (), w))"

text \<open>\<open>feed.update({ where: { id: mpId }, data: { syncTime, hasHistory } })\<close>: rejected
  when no feed has the id.\<close>

definition feed_update :: "env \<Rightarrow> string \<Rightarrow> int \<Rightarrow> int \<Rightarrow> world \<Rightarrow> unit outcome" where
  "feed_update e mpId syncTime hasHistory' =
     prisma e (\<lambda>w.
        if mpId \<in> feed_id ` set (feeds w)
        then (Inr (), w\<lparr>feeds :=
                map (\<lambda>f. if feed_id f = mpId
                          then f\<lparr>feed_syncTime := syncTime, feed_hasHistory := hasHistory'\<rparr>
                          else f) (feeds w)\<rparr>)
        else (Inl RecordNotFound, w))"

text \<open>The result of the \<open>catch\<close> block of \<open>refreshMpArticlesAndUpdateFeed\<close>.\<close>

definition refresh_failed :: "string \<Rightarrow> RefreshArticlesResult" where
  "refresh_failed mpId =
     \<lparr>message = MsgFeedUpdateFailed mpId, successCount = 0, errorCount = 1,
      failedFeeds = [mpId], hasHistory = Some 1, articlesCount = 0\<rparr>"

text \<open>The body of the \<open>try\<close> block of \<open>refreshMpArticlesAndUpdateFeed\<close>.\<close>

definition refresh_try :: "env \<Rightarrow> string \<Rightarrow> int \<Rightarrow> world \<Rightarrow> RefreshArticlesResult outcome" where
  "refresh_try e mpId page w =
     (case getMpArticles e mpId page 3 w of
        (Inl err, w1) \<Rightarrow> (Inl err, w1)
      | (Inr as, w1) \<Rightarrow>
          (case store_articles e mpId as w1 of
             (Inl err, w2) \<Rightarrow> (Inl err, w2)
           | (Inr _, w2) \<Rightarrow>
               (let hasHistory' = (if length as < defaultCount e then 0 else 1)
                in case feed_update e mpId (now_seconds e (tick w2)) hasHistory' w2 of
                     (Inl err, w3) \<Rightarrow> (Inl err, w3)
                   | (Inr _, w3) \<Rightarrow>
                       (Inr \<lparr>message = MsgFeedUpdated mpId, successCount = 1, errorCount = 0,
                             failedFeeds = [], hasHistory = Some hasHistory',
                             articlesCount = int (length as)\<rparr>, w3))))"

definition refreshMpArticlesAndUpdateFeed ::
  "env \<Rightarrow> string \<Rightarrow> int \<Rightarrow> world \<Rightarrow> RefreshArticlesResult outcome" where
  "refreshMpArticlesAndUpdateFeed e mpId page w =
     try_catch (refresh_try e mpId page w) (\<lambda>err w'. (Inr (refresh_failed mpId), w'))"

section \<open>The history crawl\<close>

text \<open>\<open>feed.findFirstOrThrow({ where: { id: mpId } })\<close> and
  \<open>article.count({ where: { mpId } })\<close>.\<close>

definition feed_findFirstOrThrow :: "env \<Rightarrow> string \<Rightarrow> world \<Rightarrow> feed outcome" where
  "feed_findFirstOrThrow e mpId =
     prisma e (\<lambda>w. case find (\<lambda>f. feed_id f = mpId) (feeds w) of
                       None \<Rightarrow> (Inl RecordNotFound, w)
                     | Some f \<Rightarrow> (Inr f, w))"

definition article_count :: "env \<Rightarrow> string \<Rightarrow> world \<Rightarrow> nat outcome" where
  "article_count e mpId =
     prisma e (\<lambda>w. (Inr (length (filter (\<lambda>r. article_mpId r = mpId) (articles w))), w))"

text \<open>
  \<open>getHistoryMpArticles\<close> is an asynchronous function: it runs until its next
  \<open>await\<close>, and other calls of the service run before it is resumed. A call in progress
  is therefore a value: the \<open>await\<close> it is suspended at together with its local
  variables (\<open>mpId\<close>, the loop counter \<open>i\<close> after the decrement of the loop test, and
  the page argument that was evaluated when the refresh was called), or its completion.
\<close>

datatype crawl =
    AwaitFeed string
  | AwaitCount string
  | AwaitRefresh string int nat
  | AwaitDelay string nat
  | Returned
  | Thrown error

text \<open>The \<open>finally\<close> block.\<close>

definition history_finally :: "world \<Rightarrow> world" where
  "history_finally w = w\<lparr>inProgressHistoryMp := \<lparr>hist_id = [], hist_page = 1\<rparr>\<rparr>"

text \<open>
  The head of \<open>while (i-- > 0)\<close> up to the call of the refresh: the loop test, the
  test of the shared record against \<open>mpId\<close>, and the call with the record's page.
  Leaving the loop runs the \<open>finally\<close> block and returns.
\<close>

definition history_loop :: "string \<Rightarrow> nat \<Rightarrow> world \<Rightarrow> crawl \<times> world" where
  "history_loop mpId i w =
     (if i > 0
      then (if hist_id (inProgressHistoryMp w) \<noteq> mpId then (Returned, history_finally w)
            else (AwaitRefresh mpId (hist_page (inProgressHistoryMp w)) (i - 1), w))
      else (Returned, history_finally w))"

text \<open>The call of \<open>getHistoryMpArticles(mpId)\<close>: lines 268 to 283, up to the first
  \<open>await\<close>.\<close>

definition getHistoryMpArticles :: "string \<Rightarrow> world \<Rightarrow> crawl \<times> world" where
  "getHistoryMpArticles mpId w =
     (if hist_id (inProgressHistoryMp w) = mpId then (Returned, w)
      else (let w1 = w\<lparr>inProgressHistoryMp := \<lparr>hist_id = mpId, hist_page = 1\<rparr>\<rparr>
            in if hist_id (inProgressHistoryMp w1) = [] then (Returned, w1)
               else (AwaitFeed mpId, w1)))"

text \<open>
  Resuming a suspended call: it runs to its next \<open>await\<close> or to its end. The awaited
  operation (a storage call, one whole \<open>refreshMpArticlesAndUpdateFeed\<close>, the delay)
  takes effect at the resumption; the refresh does not read or write
  \<open>inProgressHistoryMp\<close>. \<open>Math.ceil(total / defaultCount)\<close> is taken over the reals
  and is meant for a positive \<open>defaultCount\<close>.
\<close>

definition history_resume :: "env \<Rightarrow> crawl \<Rightarrow> world \<Rightarrow> crawl \<times> world" where
  "history_resume e c w =
     (case c of
        AwaitFeed mpId \<Rightarrow>
          (case feed_findFirstOrThrow e mpId w of
             (Inl err, w1) \<Rightarrow> (Thrown err, history_finally w1)
           | (Inr feed, w1) \<Rightarrow>
               if feed_hasHistory feed = 0 then (Returned, history_finally w1)
               else (AwaitCount mpId, w1))
      | AwaitCount mpId \<Rightarrow>
          (case article_count e mpId w of
             (Inl err, w1) \<Rightarrow> (Thrown err, history_finally w1)
           | (Inr total', w1) \<Rightarrow>
               history_loop mpId 1000
                 (w1\<lparr>inProgressHistoryMp := (inProgressHistoryMp w1)
                        \<lparr>hist_page := \<lceil>real total' / real (defaultCount e)\<rceil>\<rparr>\<rparr>))
      | AwaitRefresh mpId page i \<Rightarrow>
          (case refreshMpArticlesAndUpdateFeed e mpId page w of
             (Inl err, w1) \<Rightarrow> (Thrown err, history_finally w1)
           | (Inr result, w1) \<Rightarrow>
               if (case hasHistory result of None \<Rightarrow> 1 | Some h \<Rightarrow> h) < 1
               then (Returned, history_finally w1)
               else (AwaitDelay mpId i,
                     w1\<lparr>inProgressHistoryMp := (inProgressHistoryMp w1)
                           \<lparr>hist_page := hist_page (inProgressHistoryMp w1) + 1\<rparr>\<rparr>))
      | AwaitDelay mpId i \<Rightarrow> history_loop mpId i w
      | Returned \<Rightarrow> (Returned, w)
      | Thrown err \<Rightarrow> (Thrown err, w))"

text \<open>A call resumed \<open>n\<close> times in a row, nothing else running in between.\<close>

fun history_run :: "env \<Rightarrow> nat \<Rightarrow> crawl \<times> world \<Rightarrow> crawl \<times> world" where
  "history_run e 0 cw = cw"
| "history_run e (Suc n) cw = history_run e n (history_resume e (fst cw) (snd cw))"

section \<open>The bulk refresh\<close>

definition feed_findMany :: "env \<Rightarrow> world \<Rightarrow> feed list outcome" where
  "feed_findMany e = prisma e (\<lambda>w. (Inr (filter (\<lambda>f. feed_status f = ENABLE) (feeds w)), w))"

text \<open>\<open>Set.add\<close> on a set kept in insertion order, as \<open>Array.from\<close> reads it.\<close>

definition set_add :: "string \<Rightarrow> string list \<Rightarrow> string list" where
  "set_add x xs = (if x \<in> set xs then xs else xs @ [x])"

text \<open>The test that puts a feed into \<open>currentRoundFailedFeeds\<close>.\<close>

definition refresh_unsuccessful :: "RefreshArticlesResult \<Rightarrow> bool" where
  "refresh_unsuccessful result \<longleftrightarrow> errorCount result > 0 \<or> articlesCount result = 0"

text \<open>
  The inner loop \<open>for (const id of feedsToUpdate)\<close> of one round, with the set
  \<open>currentRoundFailedFeeds\<close> built so far. The delay after each feed changes nothing.
\<close>

fun refresh_round :: "env \<Rightarrow> string list \<Rightarrow> string list \<Rightarrow> world \<Rightarrow> string list \<times> world" where
  "refresh_round e [] currentRoundFailedFeeds w = (currentRoundFailedFeeds, w)"
| "refresh_round e (i # feedsToUpdate) currentRoundFailedFeeds w =
     (case refreshMpArticlesAndUpdateFeed e i 1 w of
        (Inr result, w1) \<Rightarrow>
          refresh_round e feedsToUpdate
            (if refresh_unsuccessful result then set_add i currentRoundFailedFeeds
             else currentRoundFailedFeeds) w1
      | (Inl err, w1) \<Rightarrow>
          refresh_round e feedsToUpdate (set_add i currentRoundFailedFeeds) w1)"

text \<open>The results of the refreshes one round makes, in order, each with its feed.\<close>

fun round_results ::
  "env \<Rightarrow> string list \<Rightarrow> world \<Rightarrow> (string \<times> (error + RefreshArticlesResult)) list" where
  "round_results e [] w = []"
| "round_results e (i # feedsToUpdate) w =
     (case refreshMpArticlesAndUpdateFeed e i 1 w of
        (r, w1) \<Rightarrow> (i, r) # round_results e feedsToUpdate w1)"

definition maxRounds :: nat where
  "maxRounds = 8"

text \<open>
  The loop \<open>for (let round = 1; round <= maxRounds; round++)\<close>. It returns
  \<open>finalFailedFeeds\<close>, the value of \<open>round\<close> when the loop was left (the round of the
  \<open>break\<close>, or \<open>maxRounds + 1\<close> when the loop test failed) and the state.
\<close>

function refresh_rounds ::
  "env \<Rightarrow> nat \<Rightarrow> string list \<Rightarrow> string list \<Rightarrow> world \<Rightarrow> string list \<times> nat \<times> world" where
  "refresh_rounds e round' feedsToUpdate finalFailedFeeds w =
     (if round' \<le> maxRounds
      then (case refresh_round e feedsToUpdate [] w of
              (currentRoundFailedFeeds, w1) \<Rightarrow>
                if length currentRoundFailedFeeds = 0 then (currentRoundFailedFeeds, round', w1)
                else refresh_rounds e (round' + 1) currentRoundFailedFeeds currentRoundFailedFeeds w1)
      else (finalFailedFeeds, round', w))"
  by pat_completeness auto
termination
  by (relation "measure (\<lambda>(e, round', feedsToUpdate, finalFailedFeeds, w). Suc maxRounds - round')") auto

declare refresh_rounds.simps [simp del]

text \<open>The result returned when a bulk refresh is already running.\<close>

definition refresh_all_running :: RefreshAllResult where
  "refresh_all_running =
     \<lparr>message = MsgAlreadyRunning, successCount = - 1, errorCount = - 1, failedFeeds = []\<rparr>"

text \<open>The body of the \<open>try\<close> block of \<open>refreshAllMpArticlesAndUpdateFeed\<close>.\<close>

definition refresh_all_try :: "env \<Rightarrow> world \<Rightarrow> RefreshAllResult outcome" where
  "refresh_all_try e w =
     (case feed_findMany e w of
        (Inl err, w1) \<Rightarrow> (Inl err, w1)
      | (Inr allMps, w1) \<Rightarrow>
          if length allMps = 0
          then (Inr \<lparr>message = MsgNoEnabledFeeds, successCount = 0, errorCount = 0,
                     failedFeeds = []\<rparr>, w1)
          else (case refresh_rounds e 1 (map feed_id allMps) [] w1 of
                  (finalFailedFeeds, round', w2) \<Rightarrow>
                    (Inr \<lparr>message = MsgUpdateFinished,
                          successCount = int (length allMps) - int (length finalFailedFeeds),
                          errorCount = int (length finalFailedFeeds),
                          failedFeeds = finalFailedFeeds\<rparr>, w2)))"

text \<open>The \<open>catch\<close> block: it queries the enabled feeds again, which may throw in turn.\<close>

definition refresh_all_catch :: "env \<Rightarrow> error \<Rightarrow> world \<Rightarrow> RefreshAllResult outcome" where
  "refresh_all_catch e err w =
     (case feed_findMany e w of
        (Inl err', w1) \<Rightarrow> (Inl err', w1)
      | (Inr allMps, w1) \<Rightarrow>
          (Inr \<lparr>message = MsgUnexpectedError, successCount = 0,
                errorCount = int (length allMps), failedFeeds = []\<rparr>, w1))"

definition refreshAllMpArticlesAndUpdateFeed :: "env \<Rightarrow> world \<Rightarrow> RefreshAllResult outcome" where
  "refreshAllMpArticlesAndUpdateFeed e w =
     (if isRefreshAllMpArticlesRunning w then (Inr refresh_all_running, w)
      else (case try_catch (refresh_all_try e (w\<lparr>isRefreshAllMpArticlesRunning := True\<rparr>))
                   (refresh_all_catch e) of
              (r, w') \<Rightarrow> (r, w'\<lparr>isRefreshAllMpArticlesRunning := False\<rparr>)))"

section \<open>Example states\<close>

text \<open>
  Concrete states and environments on which the theorems below are exercised: one
  enabled account, the feeds \<open>MP_A\<close> and \<open>MP_B\<close>, no stored article, an empty
  quarantine map, a page size of 20, a storage layer that never fails, and an upstream
  that gives every request the same answer.
\<close>

definition example_account :: account where
  "example_account = \<lparr>account_id = ''acc1'', account_token = ''tok1'', account_status = ENABLE\<rparr>"

definition example_feed :: "string \<Rightarrow> feed" where
  "example_feed i = \<lparr>feed_id = i, feed_status = ENABLE, feed_syncTime = 0, feed_hasHistory = 1\<rparr>"

definition example_article :: upstream_article where
  "example_article = \<lparr>ua_id = ''art1'', ua_title = ''title'', ua_picUrl = ''pic'',
                       ua_publishTime = 1699999000\<rparr>"

definition example_env :: "http_response \<Rightarrow> env" where
  "example_env answer =
     \<lparr>defaultCount = 20, sqlite = True, random = (\<lambda>t. 0),
      upstream = (\<lambda>t xid mpId page. answer), now_seconds = (\<lambda>t. 1700000000),
      today_string = (\<lambda>t. ''2024-05-01''), db_fault = (\<lambda>t. False)\<rparr>"

definition example_world :: "account list \<Rightarrow> history_mp \<Rightarrow> bool \<Rightarrow> world" where
  "example_world as h running =
     \<lparr>accounts = as, feeds = [example_feed ''MP_A'', example_feed ''MP_B''], articles = [],
      blockedAccountsMap = Map.empty, inProgressHistoryMp = h,
      isRefreshAllMpArticlesRunning = running, tick = 0\<rparr>"

definition no_crawl :: history_mp where
  "no_crawl = \<lparr>hist_id = [], hist_page = 1\<rparr>"

definition crawling :: "string \<Rightarrow> int \<Rightarrow> history_mp" where
  "crawling mpId page = \<lparr>hist_id = mpId, hist_page = page\<rparr>"

text \<open>A pool of thirteen accounts, one of them invalid, and states whose quarantine map
  has a list for today; an environment whose every draw of \<open>Math.random\<close> is the given
  number.\<close>

definition numbered_account :: "string \<Rightarrow> status \<Rightarrow> account" where
  "numbered_account i s = \<lparr>account_id = i, account_token = ''tok'' @ i, account_status = s\<rparr>"

definition example_pool :: "account list" where
  "example_pool =
     [numbered_account ''a01'' INVALID, numbered_account ''a02'' ENABLE,
      numbered_account ''a03'' ENABLE, numbered_account ''a04'' ENABLE,
      numbered_account ''a05'' ENABLE, numbered_account ''a06'' ENABLE,
      numbered_account ''a07'' ENABLE, numbered_account ''a08'' ENABLE,
      numbered_account ''a09'' ENABLE, numbered_account ''a10'' ENABLE,
      numbered_account ''a11'' ENABLE, numbered_account ''a12'' ENABLE,
      numbered_account ''a13'' ENABLE]"

definition example_quarantine :: "account list \<Rightarrow> string list \<Rightarrow> world" where
  "example_quarantine as blocked =
     (example_world as no_crawl False)\<lparr>blockedAccountsMap := [''2024-05-01'' \<mapsto> blocked]\<rparr>"

definition example_env_drawing :: "real \<Rightarrow> env" where
  "example_env_drawing r = (example_env (HttpError []))\<lparr>random := (\<lambda>t. r)\<rparr>"

text \<open>The example state after one successful refresh of \<open>MP_A\<close>.\<close>

definition example_world_after :: "int \<Rightarrow> article list \<Rightarrow> nat \<Rightarrow> world" where
  "example_world_after h rows t =
     \<lparr>accounts = [example_account],
      feeds = [\<lparr>feed_id = ''MP_A'', feed_status = ENABLE, feed_syncTime = 1700000000,
                feed_hasHistory = h\<rparr>, example_feed ''MP_B''],
      articles = rows, blockedAccountsMap = Map.empty, inProgressHistoryMp = no_crawl,
      isRefreshAllMpArticlesRunning = False, tick = t\<rparr>"

lemmas example_defs = example_account_def example_feed_def example_article_def example_env_def
  example_world_def no_crawl_def

lemmas refresh_defs = refreshMpArticlesAndUpdateFeed_def try_catch_def refresh_try_def
  getAvailableAccount_def account_findMany_def prisma_def getBlockedAccountIds_def
  getTodayDate_def request_get_def store_articles_def article_upsert_transaction_def
  article_upsert_def feed_update_def refresh_failed_def Let_def

section \<open>What a fetch leaves alone\<close>

text \<open>
  Selecting an account, the request with its interceptor and the retries write the
  account table and the quarantine map only: the crawl record, the feeds and the
  articles stay as they are, and the clock does not go back.
\<close>

lemma prisma_frame:
  assumes "prisma e operation w = (r, w')"
    and "\<And>v r' v'. operation v = (r', v') \<Longrightarrow>
           inProgressHistoryMp v' = inProgressHistoryMp v \<and> feeds v' = feeds v \<and>
           articles v' = articles v \<and> tick v \<le> tick v'"
  shows "inProgressHistoryMp w' = inProgressHistoryMp w \<and> feeds w' = feeds w \<and>
         articles w' = articles w \<and> tick w \<le> tick w'"
proof (cases "db_fault e (tick w)")
  case True
  with assms(1) show ?thesis by (auto simp: prisma_def Let_def)
next
  case False
  with assms(1) have "operation (w\<lparr>tick := tick w + 1\<rparr>) = (r, w')"
    by (simp add: prisma_def Let_def)
  from assms(2) [OF this] show ?thesis by simp
qed

lemma account_update_frame:
  "account_update e xid s w = (r, w') \<Longrightarrow>
     inProgressHistoryMp w' = inProgressHistoryMp w \<and> feeds w' = feeds w \<and>
     articles w' = articles w \<and> tick w \<le> tick w'"
  unfolding account_update_def
  by (erule prisma_frame) (auto split: option.splits if_splits)

lemma account_findMany_frame:
  "account_findMany e d w = (r, w') \<Longrightarrow>
     inProgressHistoryMp w' = inProgressHistoryMp w \<and> feeds w' = feeds w \<and>
     articles w' = articles w \<and> tick w \<le> tick w'"
  unfolding account_findMany_def
  by (erule prisma_frame) auto

lemma interceptor_quarantine_frame:
  "inProgressHistoryMp (interceptor_quarantine e errMsg xid w) = inProgressHistoryMp w \<and>
   feeds (interceptor_quarantine e errMsg xid w) = feeds w \<and>
   articles (interceptor_quarantine e errMsg xid w) = articles w \<and>
   tick (interceptor_quarantine e errMsg xid w) = tick w"
  by (simp add: interceptor_quarantine_def Let_def split: option.splits)

lemma interceptor_classify_blocked:
  "blockedAccountsMap (snd (interceptor_classify e errMsg xid w)) = blockedAccountsMap w"
  by (simp add: interceptor_classify_def account_update_def prisma_def Let_def split: option.splits)

lemma interceptor_onRejected_frame:
  assumes "interceptor_onRejected e errMsg xid w = (err, w')"
  shows "inProgressHistoryMp w' = inProgressHistoryMp w \<and> feeds w' = feeds w \<and>
         articles w' = articles w \<and> tick w \<le> tick w'"
proof -
  obtain r w1 where c: "interceptor_classify e errMsg xid w = (r, w1)"
    by (cases "interceptor_classify e errMsg xid w")
  have f1: "inProgressHistoryMp w1 = inProgressHistoryMp w \<and> feeds w1 = feeds w \<and>
            articles w1 = articles w \<and> tick w \<le> tick w1"
    using c account_update_frame [of e xid INVALID w r w1]
    by (auto simp: interceptor_classify_def split: if_splits)
  show ?thesis
    using assms c f1 interceptor_quarantine_frame [of e errMsg xid w1]
    by (auto simp: interceptor_onRejected_def split: sum.splits)
qed

lemma request_get_frame:
  assumes "request_get e xid mpId page w = (r, w')"
  shows "inProgressHistoryMp w' = inProgressHistoryMp w \<and> feeds w' = feeds w \<and>
         articles w' = articles w \<and> tick w \<le> tick w'"
proof (cases "upstream e (tick w) xid mpId page")
  case (HttpOk res)
  with assms show ?thesis by (auto simp: request_get_def Let_def)
next
  case (HttpError errMsg)
  obtain err w2 where i: "interceptor_onRejected e errMsg xid (w\<lparr>tick := tick w + 1\<rparr>) = (err, w2)"
    by (cases "interceptor_onRejected e errMsg xid (w\<lparr>tick := tick w + 1\<rparr>)")
  from interceptor_onRejected_frame [OF i] assms HttpError i show ?thesis
    by (auto simp: request_get_def Let_def)
qed

lemma getAvailableAccount_frame:
  assumes "getAvailableAccount e w = (r, w')"
  shows "inProgressHistoryMp w' = inProgressHistoryMp w \<and> feeds w' = feeds w \<and>
         articles w' = articles w \<and> tick w \<le> tick w'"
proof -
  obtain r1 w1 where f: "account_findMany e (getBlockedAccountIds e w) w = (r1, w1)"
    by (cases "account_findMany e (getBlockedAccountIds e w) w")
  from account_findMany_frame [OF f] assms f show ?thesis
    by (auto simp: getAvailableAccount_def Let_def split: sum.splits if_splits)
qed

lemma getMpArticles_frame:
  "getMpArticles e mpId page retryCount w = (r, w') \<Longrightarrow>
     inProgressHistoryMp w' = inProgressHistoryMp w \<and> feeds w' = feeds w \<and>
     articles w' = articles w \<and> tick w \<le> tick w'"
proof (induction retryCount arbitrary: w r w')
  case 0
  note unfold = getMpArticles.simps [of e mpId page 0 w]
  obtain ra w1 where a: "getAvailableAccount e w = (ra, w1)"
    by (cases "getAvailableAccount e w")
  note fa = getAvailableAccount_frame [OF a]
  show ?case
  proof (cases ra)
    case (Inl err)
    with 0 a fa show ?thesis by (simp add: unfold)
  next
    case (Inr account)
    show ?thesis
    proof (cases account)
      case None
      with 0 a fa Inr show ?thesis by (simp add: unfold)
    next
      case (Some acc)
      obtain rq w2 where q: "request_get e (Some (account_id acc)) mpId page w1 = (rq, w2)"
        by (cases "request_get e (Some (account_id acc)) mpId page w1")
      from request_get_frame [OF q] 0 a fa Inr Some q show ?thesis
        by (auto simp: unfold split: sum.splits)
    qed
  qed
next
  case (Suc n)
  note unfold = getMpArticles.simps [of e mpId page "Suc n" w]
  obtain ra w1 where a: "getAvailableAccount e w = (ra, w1)"
    by (cases "getAvailableAccount e w")
  note fa = getAvailableAccount_frame [OF a]
  show ?case
  proof (cases ra)
    case (Inl err)
    with Suc.prems a fa show ?thesis by (simp add: unfold)
  next
    case (Inr account)
    show ?thesis
    proof (cases account)
      case None
      with Suc.prems a Inr have "getMpArticles e mpId page n w1 = (r, w')"
        by (simp add: unfold)
      from Suc.IH [OF this] fa show ?thesis by simp
    next
      case (Some acc)
      obtain rq w2 where q: "request_get e (Some (account_id acc)) mpId page w1 = (rq, w2)"
        by (cases "request_get e (Some (account_id acc)) mpId page w1")
      note fq = request_get_frame [OF q]
      show ?thesis
      proof (cases rq)
        case (Inl err)
        with Suc.prems a Inr Some q have "getMpArticles e mpId page n w2 = (r, w')"
          by (simp add: unfold)
        from Suc.IH [OF this] fa fq show ?thesis by simp
      next
        case (Inr res)
        with Suc.prems a \<open>ra = Inr account\<close> Some q fa fq show ?thesis
          by (simp add: unfold)
      qed
    qed
  qed
qed

lemma store_articles_frame:
  "store_articles e mpId as w = (r, w') \<Longrightarrow>
     inProgressHistoryMp w' = inProgressHistoryMp w \<and> feeds w' = feeds w \<and> tick w \<le> tick w'"
  by (auto simp: store_articles_def article_upsert_transaction_def article_createMany_def
        prisma_def Let_def split: if_splits)

lemma feed_update_Inl:
  "feed_update e mpId s h w = (Inl err, w') \<Longrightarrow>
     inProgressHistoryMp w' = inProgressHistoryMp w \<and> feeds w' = feeds w \<and> tick w \<le> tick w'"
  by (auto simp: feed_update_def prisma_def Let_def split: if_splits)

lemma feed_rows_updated:
  "map feed_id (map (\<lambda>f::feed. if feed_id f = mpId
                          then f\<lparr>feed_syncTime := s, feed_hasHistory := h\<rparr> else f) fs) =
   map feed_id fs"
  by (induction fs) simp_all

lemma feed_update_Inr:
  assumes "feed_update e mpId s h w = (Inr u, w')"
  shows "inProgressHistoryMp w' = inProgressHistoryMp w \<and> tick w < tick w' \<and>
     mpId \<in> feed_id ` set (feeds w') \<and>
     (\<forall>f \<in> set (feeds w'). feed_id f = mpId \<longrightarrow> feed_syncTime f = s \<and> feed_hasHistory f = h)"
proof -
  let ?g = "\<lambda>f::feed. if feed_id f = mpId
                          then f\<lparr>feed_syncTime := s, feed_hasHistory := h\<rparr> else f"
  have nf: "\<not> db_fault e (tick w)"
    using assms by (simp add: feed_update_def prisma_def Let_def split: if_splits)
  have mem: "mpId \<in> feed_id ` set (feeds w)"
    using assms nf by (simp add: feed_update_def prisma_def Let_def split: if_splits)
  have w': "w' = w\<lparr>tick := tick w + 1, feeds := map ?g (feeds w)\<rparr>"
    using assms nf mem by (simp add: feed_update_def prisma_def Let_def)
  have "set (map feed_id (map ?g (feeds w))) = set (map feed_id (feeds w))"
    by (simp only: feed_rows_updated)
  then have ids: "feed_id ` set (map ?g (feeds w)) = feed_id ` set (feeds w)"
    by (simp only: set_map)
  have upd: "feed_syncTime f = s \<and> feed_hasHistory f = h"
    if "f \<in> set (map ?g (feeds w))" "feed_id f = mpId" for f
  proof -
    from that(1) obtain f0 where "f0 \<in> set (feeds w)" "f = ?g f0" by (auto simp only: set_map)
    with that(2) show ?thesis by (cases "feed_id f0 = mpId") simp_all
  qed
  have 1: "inProgressHistoryMp w' = inProgressHistoryMp w" by (simp add: w')
  have 2: "tick w < tick w'" by (simp add: w')
  have f': "feeds w' = map ?g (feeds w)" by (simp add: w')
  have 3: "mpId \<in> feed_id ` set (feeds w')" using mem ids by (simp only: f')
  have 4: "\<forall>f \<in> set (feeds w'). feed_id f = mpId \<longrightarrow> feed_syncTime f = s \<and> feed_hasHistory f = h"
    using upd by (simp only: f') blast
  from 1 2 3 4 show ?thesis by blast
qed

section \<open>The four ways a refresh can end\<close>

lemma refresh_try_cases:
  obtains
    (fetch_raises) err w1 where
      "getMpArticles e mpId page 3 w = (Inl err, w1)"
      "refresh_try e mpId page w = (Inl err, w1)"
  | (store_raises) as w1 err w2 where
      "getMpArticles e mpId page 3 w = (Inr as, w1)"
      "store_articles e mpId as w1 = (Inl err, w2)"
      "refresh_try e mpId page w = (Inl err, w2)"
  | (update_raises) as w1 u w2 err w3 where
      "getMpArticles e mpId page 3 w = (Inr as, w1)"
      "store_articles e mpId as w1 = (Inr u, w2)"
      "feed_update e mpId (now_seconds e (tick w2))
         (if length as < defaultCount e then 0 else 1) w2 = (Inl err, w3)"
      "refresh_try e mpId page w = (Inl err, w3)"
  | (succeeds) as w1 u w2 u' w3 where
      "getMpArticles e mpId page 3 w = (Inr as, w1)"
      "store_articles e mpId as w1 = (Inr u, w2)"
      "feed_update e mpId (now_seconds e (tick w2))
         (if length as < defaultCount e then 0 else 1) w2 = (Inr u', w3)"
      "refresh_try e mpId page w =
         (Inr \<lparr>message = MsgFeedUpdated mpId, successCount = 1, errorCount = 0,
               failedFeeds = [], hasHistory = Some (if length as < defaultCount e then 0 else 1),
               articlesCount = int (length as)\<rparr>, w3)"
proof -
  obtain r1 w1 where g: "getMpArticles e mpId page 3 w = (r1, w1)"
    by (cases "getMpArticles e mpId page 3 w")
  show thesis
  proof (cases r1)
    case (Inl err)
    with g show thesis by (intro fetch_raises [of err w1]) (simp_all add: refresh_try_def)
  next
    case (Inr as)
    note r1 = this
    obtain r2 w2 where s: "store_articles e mpId as w1 = (r2, w2)"
      by (cases "store_articles e mpId as w1")
    show thesis
    proof (cases r2)
      case (Inl err)
      with g r1 s show thesis
        by (intro store_raises [of as w1 err w2]) (simp_all add: refresh_try_def)
    next
      case (Inr u)
      note r2 = this
      obtain r3 w3 where f: "feed_update e mpId (now_seconds e (tick w2))
         (if length as < defaultCount e then 0 else 1) w2 = (r3, w3)"
        by (cases "feed_update e mpId (now_seconds e (tick w2))
         (if length as < defaultCount e then 0 else 1) w2")
      show thesis
      proof (cases r3)
        case (Inl err)
        with g r1 s r2 f show thesis
          by (intro update_raises [of as w1 u w2 err w3]) (simp_all add: refresh_try_def Let_def)
      next
        case (Inr u')
        with g r1 s r2 f show thesis
          by (intro succeeds [of as w1 u w2 u' w3]) (simp_all add: refresh_try_def Let_def)
      qed
    qed
  qed
qed

lemma refresh_catch:
  "refresh_try e mpId page w = (Inl err, w') \<Longrightarrow>
     refreshMpArticlesAndUpdateFeed e mpId page w = (Inr (refresh_failed mpId), w')"
  by (simp add: refreshMpArticlesAndUpdateFeed_def try_catch_def)

lemma refresh_pass:
  "refresh_try e mpId page w = (Inr r, w') \<Longrightarrow>
     refreshMpArticlesAndUpdateFeed e mpId page w = (Inr r, w')"
  by (simp add: refreshMpArticlesAndUpdateFeed_def try_catch_def)

lemma refresh_returns:
  "\<exists>result. fst (refreshMpArticlesAndUpdateFeed e mpId page w) = Inr result"
  by (cases "refresh_try e mpId page w")
     (auto simp: refreshMpArticlesAndUpdateFeed_def try_catch_def split: sum.splits)

lemma refresh_hist:
  "inProgressHistoryMp (snd (refreshMpArticlesAndUpdateFeed e mpId page w)) = inProgressHistoryMp w"
proof (cases rule: refresh_try_cases [of e mpId page w])
  case (fetch_raises err w1)
  from getMpArticles_frame [OF fetch_raises(1)] refresh_catch [OF fetch_raises(2)]
  show ?thesis by simp
next
  case (store_raises as w1 err w2)
  from getMpArticles_frame [OF store_raises(1)] store_articles_frame [OF store_raises(2)]
    refresh_catch [OF store_raises(3)]
  show ?thesis by simp
next
  case (update_raises as w1 u w2 err w3)
  from getMpArticles_frame [OF update_raises(1)] store_articles_frame [OF update_raises(2)]
    feed_update_Inl [OF update_raises(3)] refresh_catch [OF update_raises(4)]
  show ?thesis by simp
next
  case (succeeds as w1 u w2 u' w3)
  from getMpArticles_frame [OF succeeds(1)] store_articles_frame [OF succeeds(2)]
    feed_update_Inr [OF succeeds(3)] refresh_pass [OF succeeds(4)]
  show ?thesis by simp
qed

section \<open>Steps of the history crawl and of the bulk refresh\<close>

lemma history_loop_other_id:
  "hist_id (inProgressHistoryMp w) \<noteq> mpId \<Longrightarrow>
     history_loop mpId i w = (Returned, history_finally w)"
  by (simp add: history_loop_def)

lemma history_finally_record:
  "inProgressHistoryMp (history_finally w) = \<lparr>hist_id = [], hist_page = 1\<rparr>"
  by (simp add: history_finally_def)

lemma history_resume_delay_other_id:
  "hist_id (inProgressHistoryMp w) \<noteq> mpId \<Longrightarrow>
     history_resume e (AwaitDelay mpId i) w = (Returned, history_finally w)"
  by (simp add: history_resume_def history_loop_other_id)

lemma history_resume_refresh_cases:
  obtains
    (ended) w1 where
      "history_resume e (AwaitRefresh mpId page i) w = (Returned, history_finally w1)"
  | (delayed) w1 where
      "history_resume e (AwaitRefresh mpId page i) w = (AwaitDelay mpId i, w1)"
      "hist_id (inProgressHistoryMp w1) = hist_id (inProgressHistoryMp w)"
proof -
  obtain r w1 where rf: "refreshMpArticlesAndUpdateFeed e mpId page w = (r, w1)"
    by (cases "refreshMpArticlesAndUpdateFeed e mpId page w")
  from refresh_returns [of e mpId page w] rf obtain result where r: "r = Inr result" by auto
  from refresh_hist [of e mpId page w] rf
  have h: "inProgressHistoryMp w1 = inProgressHistoryMp w" by simp
  show thesis
  proof (cases "(case hasHistory result of None \<Rightarrow> 1 | Some h \<Rightarrow> h) < 1")
    case True
    with rf r show thesis by (intro ended [of w1]) (simp add: history_resume_def)
  next
    case False
    with rf r h show thesis
      by (intro delayed [of "w1\<lparr>inProgressHistoryMp := (inProgressHistoryMp w1)
                           \<lparr>hist_page := hist_page (inProgressHistoryMp w1) + 1\<rparr>\<rparr>"])
         (simp_all add: history_resume_def)
  qed
qed

lemma history_run_2:
  "history_run e 2 cw =
     history_resume e (fst (history_resume e (fst cw) (snd cw)))
                      (snd (history_resume e (fst cw) (snd cw)))"
  by (simp add: numeral_2_eq_2)

lemma set_set_add: "set (set_add x xs) = insert x (set xs)"
  by (auto simp: set_add_def)

lemma round_results_feeds: "map fst (round_results e feedsToUpdate w) = feedsToUpdate"
  by (induction feedsToUpdate arbitrary: w) (simp_all split: prod.splits)

lemma refresh_round_failed_set:
  "set (fst (refresh_round e feedsToUpdate cur w)) =
     set cur \<union> {i. \<exists>result. (i, Inr result) \<in> set (round_results e feedsToUpdate w) \<and>
                              refresh_unsuccessful result}"
proof (induction feedsToUpdate arbitrary: cur w)
  case Nil
  show ?case by simp
next
  case (Cons i ids)
  obtain r w1 where rf: "refreshMpArticlesAndUpdateFeed e i 1 w = (r, w1)"
    by (cases "refreshMpArticlesAndUpdateFeed e i 1 w")
  from refresh_returns [of e i 1 w] rf obtain result where r: "r = Inr result" by auto
  define cur' where
    "cur' = (if refresh_unsuccessful result then set_add i cur else cur)"
  have step: "refresh_round e (i # ids) cur w = refresh_round e ids cur' w1"
    by (simp add: rf r cur'_def)
  have res: "round_results e (i # ids) w = (i, Inr result) # round_results e ids w1"
    by (simp add: rf r)
  have cur'_set: "set cur' = set cur \<union> {j. j = i \<and> refresh_unsuccessful result}"
    by (auto simp: cur'_def set_set_add)
  show ?case
    unfolding step res Cons.IH [of cur' w1] cur'_set by auto
qed

lemma refresh_rounds_next:
  assumes "round' \<le> maxRounds" and "fst (refresh_round e feedsToUpdate [] w) \<noteq> []"
  shows "refresh_rounds e round' feedsToUpdate finalFailedFeeds w =
         refresh_rounds e (round' + 1) (fst (refresh_round e feedsToUpdate [] w))
           (fst (refresh_round e feedsToUpdate [] w)) (snd (refresh_round e feedsToUpdate [] w))"
proof -
  obtain cur w1 where rr: "refresh_round e feedsToUpdate [] w = (cur, w1)"
    by (cases "refresh_round e feedsToUpdate [] w")
  with assms show ?thesis
    by (simp add: refresh_rounds.simps [of e round' feedsToUpdate finalFailedFeeds w])
qed

lemma refresh_rounds_early_exit:
  "refresh_rounds e round' feedsToUpdate finalFailedFeeds w = (ff, r, w') \<Longrightarrow>
     round' \<le> maxRounds \<Longrightarrow> r \<le> maxRounds \<Longrightarrow> ff = []"
proof (induction e round' feedsToUpdate finalFailedFeeds w rule: refresh_rounds.induct)
  case (1 e round' feedsToUpdate finalFailedFeeds w)
  obtain cur w1 where rr: "refresh_round e feedsToUpdate [] w = (cur, w1)"
    by (cases "refresh_round e feedsToUpdate [] w")
  show ?case
  proof (cases "cur = []")
    case True
    with "1.prems" rr show ?thesis
      by (simp add: refresh_rounds.simps [of e round' feedsToUpdate finalFailedFeeds w])
  next
    case False
    with "1.prems"(1,2) rr
    have next_call: "refresh_rounds e (round' + 1) cur cur w1 = (ff, r, w')"
      by (simp add: refresh_rounds.simps [of e round' feedsToUpdate finalFailedFeeds w])
    show ?thesis
    proof (cases "round' + 1 \<le> maxRounds")
      case True
      from "1.IH" [OF "1.prems"(2) rr [symmetric] _ next_call True "1.prems"(3)] False
      show ?thesis by simp
    next
      case False
      with next_call have "r = round' + 1"
        by (simp add: refresh_rounds.simps [of e "Suc round'" cur cur w1])
      with False "1.prems"(3) show ?thesis by simp
    qed
  qed
qed

lemma floor_index_in_range:
  fixes r :: real
  assumes "0 \<le> r" "r < 1" "0 < n"
  shows "0 \<le> \<lfloor>r * real n\<rfloor> \<and> \<lfloor>r * real n\<rfloor> < int n"
proof -
  have "0 \<le> r * real n" using assms by simp
  moreover have "r * real n < real n" using assms by simp
  ultimately show ?thesis by (simp add: floor_less_iff)
qed

section \<open>The example states, evaluated\<close>

lemma example_fetch_no_account:
  "getMpArticles (example_env (HttpError [])) ''MP_A'' 1 3 (example_world [] no_crawl False) =
     (Inl NoAvailableAccount, (example_world [] no_crawl False)\<lparr>tick := 1\<rparr>)"
  by (simp add: getMpArticles.simps [of _ _ _ 3] refresh_defs example_defs)

lemma example_fetch_ok:
  "getMpArticles (example_env (HttpOk [example_article])) ''MP_A'' 1 3
       (example_world [example_account] no_crawl False) =
     (Inr [example_article], (example_world [example_account] no_crawl False)\<lparr>tick := 3\<rparr>)"
  by (simp add: getMpArticles.simps [of _ _ _ 3] refresh_defs example_defs)

lemma example_fetch_upstream_error:
  "getMpArticles (example_env (HttpError [])) ''MP_A'' 1 3
       (example_world [example_account] no_crawl False) =
     (Inl (UpstreamFailed []), (example_world [example_account] no_crawl False)\<lparr>tick := 12\<rparr>)"
  by (simp add: getMpArticles.simps [of _ _ _ 3] getMpArticles.simps [of _ _ _ 2]
        getMpArticles.simps [of _ _ _ "Suc 0"] getMpArticles.simps [of _ _ _ 0]
        refresh_defs example_defs interceptor_onRejected_def interceptor_classify_def
        interceptor_quarantine_def str_includes_def)

lemma example_fetch_empty:
  "getMpArticles (example_env (HttpOk [])) ''MP_A'' 1 3
       (example_world [example_account] no_crawl False) =
     (Inr [], (example_world [example_account] no_crawl False)\<lparr>tick := 3\<rparr>)"
  by (simp add: getMpArticles.simps [of _ _ _ 3] refresh_defs example_defs)

lemma example_refresh_ok:
  "refreshMpArticlesAndUpdateFeed (example_env (HttpOk [example_article])) ''MP_A'' 1
       (example_world [example_account] no_crawl False) =
     (Inr \<lparr>message = MsgFeedUpdated ''MP_A'', successCount = 1, errorCount = 0,
           failedFeeds = [], hasHistory = Some 0, articlesCount = 1\<rparr>,
      example_world_after 0
        [\<lparr>article_id = ''art1'', article_mpId = ''MP_A'', article_picUrl = ''pic'',
          article_publishTime = 1699999000, article_title = ''title''\<rparr>] 5)"
  by (simp add: refreshMpArticlesAndUpdateFeed_def try_catch_def refresh_try_def
        example_fetch_ok)
     (simp add: refresh_defs example_defs example_world_after_def)

lemma example_refresh_empty:
  "refreshMpArticlesAndUpdateFeed (example_env (HttpOk [])) ''MP_A'' 1
       (example_world [example_account] no_crawl False) =
     (Inr \<lparr>message = MsgFeedUpdated ''MP_A'', successCount = 1, errorCount = 0,
           failedFeeds = [], hasHistory = Some 0, articlesCount = 0\<rparr>,
      example_world_after 0 [] 4)"
  by (simp add: refreshMpArticlesAndUpdateFeed_def try_catch_def refresh_try_def
        example_fetch_empty)
     (simp add: refresh_defs example_defs example_world_after_def)

lemma pool_no_fault: "\<not> db_fault (example_env_drawing r) t"
  by (simp add: example_env_drawing_def example_env_def)

lemma pool_draw: "random (example_env_drawing r) t = r"
  by (simp add: example_env_drawing_def)

lemma pool_ledger:
  "blockedAccountsMap (example_quarantine as l) (today_string (example_env_drawing r) t) = Some l"
  by (simp add: example_quarantine_def example_env_drawing_def example_env_def)

lemma pool_accounts: "accounts (example_quarantine as l) = as"
  by (simp add: example_quarantine_def example_world_def)

lemma pool_ids:
  "getBlockedAccountIds (example_env_drawing r) (example_quarantine as [''a02'']) = [''a02'']"
  by (simp add: getBlockedAccountIds_def getTodayDate_def example_quarantine_def
        example_env_drawing_def example_env_def example_world_def)

lemma pool_query:
  "account_findMany (example_env_drawing r) [''a02''] (example_quarantine example_pool [''a02'']) =
     (Inr [numbered_account ''a03'' ENABLE, numbered_account ''a04'' ENABLE,
           numbered_account ''a05'' ENABLE, numbered_account ''a06'' ENABLE,
           numbered_account ''a07'' ENABLE, numbered_account ''a08'' ENABLE,
           numbered_account ''a09'' ENABLE, numbered_account ''a10'' ENABLE,
           numbered_account ''a11'' ENABLE, numbered_account ''a12'' ENABLE],
      (example_quarantine example_pool [''a02''])\<lparr>tick := 1\<rparr>)"
  by (simp add: account_findMany_def prisma_def Let_def example_quarantine_def
        example_env_drawing_def example_env_def example_world_def example_pool_def
        numbered_account_def)

lemma pool_select_last:
  "fst (getAvailableAccount (example_env_drawing (95 / 100)) (example_quarantine example_pool [''a02''])) =
     Inr (Some (numbered_account ''a12'' ENABLE))"
proof -
  have k: "\<lfloor>(95 / 100 :: real) * real (10::nat)\<rfloor> = 9" by simp
  show ?thesis
    by (simp add: getAvailableAccount_def Let_def pool_ids pool_query pool_draw k)
qed

lemma pool_select_first:
  "fst (getAvailableAccount (example_env_drawing 0) (example_quarantine example_pool [''a02''])) =
     Inr (Some (numbered_account ''a03'' ENABLE))"
  by (simp add: getAvailableAccount_def Let_def pool_ids pool_query pool_draw)

section \<open>C1: a second start while another feed is being crawled\<close>

text \<open>
  Claim C1 says that, while a history crawl of a non-empty feed \<open>A\<close> is active, calling
  \<open>getHistoryMpArticles\<close> with another non-empty id \<open>B\<close> is a no-op that leaves the
  record \<open>{id: A, page}\<close> and the progress of \<open>A\<close> alone. The code only tests
  whether the record's id equals the argument. On the example state, where \<open>MP_A\<close> is
  being crawled at page 3 and its loop would go on with a refresh of page 3, the call
  for \<open>MP_B\<close> replaces the record by \<open>{id: MP_B, page: 1}\<close>, and the loop of
  \<open>MP_A\<close> returns at its next test instead of refreshing.
\<close>

theorem second_start_counterexample:
  "inProgressHistoryMp (example_world [example_account] (crawling ''MP_A'' 3) False)
     = \<lparr>hist_id = ''MP_A'', hist_page = 3\<rparr> \<and>
   fst (history_resume (example_env (HttpOk [example_article])) (AwaitDelay ''MP_A'' 997)
          (example_world [example_account] (crawling ''MP_A'' 3) False))
     = AwaitRefresh ''MP_A'' 3 996 \<and>
   inProgressHistoryMp (snd (getHistoryMpArticles ''MP_B''
       (example_world [example_account] (crawling ''MP_A'' 3) False)))
     = \<lparr>hist_id = ''MP_B'', hist_page = 1\<rparr> \<and>
   fst (history_resume (example_env (HttpOk [example_article])) (AwaitDelay ''MP_A'' 997)
          (snd (getHistoryMpArticles ''MP_B''
             (example_world [example_account] (crawling ''MP_A'' 3) False))))
     = Returned"
  by (simp add: getHistoryMpArticles_def history_resume_def history_loop_def history_finally_def
        example_world_def crawling_def Let_def)

text \<open>
  Claim C1 as amended: while a crawl of a non-empty feed \<open>A\<close> is active, a start for
  the same id \<open>A\<close> is a no-op; a start for another non-empty id \<open>B\<close> is not: it
  overwrites the shared record with \<open>{id: B, page: 1}\<close> and goes on to look up the feed
  \<open>B\<close>, and the loop of \<open>A\<close>, resumed after its delay, returns.
\<close>

theorem second_start_takes_over:
  assumes "hist_id (inProgressHistoryMp w) = a" and "a \<noteq> []" and "b \<noteq> []" and "b \<noteq> a"
  shows "getHistoryMpArticles a w = (Returned, w) \<and>
         getHistoryMpArticles b w =
           (AwaitFeed b, w\<lparr>inProgressHistoryMp := \<lparr>hist_id = b, hist_page = 1\<rparr>\<rparr>) \<and>
         fst (history_resume e (AwaitDelay a i) (snd (getHistoryMpArticles b w))) = Returned"
proof -
  have 1: "getHistoryMpArticles a w = (Returned, w)"
    using assms(1) by (simp add: getHistoryMpArticles_def)
  have 2: "getHistoryMpArticles b w =
           (AwaitFeed b, w\<lparr>inProgressHistoryMp := \<lparr>hist_id = b, hist_page = 1\<rparr>\<rparr>)"
    using assms by (simp add: getHistoryMpArticles_def Let_def)
  have "hist_id (inProgressHistoryMp (snd (getHistoryMpArticles b w))) \<noteq> a"
    using assms(4) by (simp add: 2)
  from history_resume_delay_other_id [OF this, of e i]
  have 3: "fst (history_resume e (AwaitDelay a i) (snd (getHistoryMpArticles b w))) = Returned"
    by simp
  from 1 2 3 show ?thesis by blast
qed

text \<open>Claim C1, amended, on the example state: \<open>MP_A\<close> is crawled, \<open>MP_B\<close> is
  started.\<close>

theorem second_start_takes_over_witness:
  "hist_id (inProgressHistoryMp (example_world [example_account] (crawling ''MP_A'' 3) False))
     = ''MP_A'' \<and> ''MP_A'' \<noteq> [] \<and> ''MP_B'' \<noteq> [] \<and> ''MP_B'' \<noteq> ''MP_A'' \<and>
   getHistoryMpArticles ''MP_A'' (example_world [example_account] (crawling ''MP_A'' 3) False) =
     (Returned, example_world [example_account] (crawling ''MP_A'' 3) False) \<and>
   getHistoryMpArticles ''MP_B'' (example_world [example_account] (crawling ''MP_A'' 3) False) =
     (AwaitFeed ''MP_B'', example_world [example_account] (crawling ''MP_B'' 1) False) \<and>
   fst (history_resume (example_env (HttpOk [example_article])) (AwaitDelay ''MP_A'' 997)
          (example_world [example_account] (crawling ''MP_B'' 1) False)) = Returned"
proof -
  let ?w = "example_world [example_account] (crawling ''MP_A'' 3) False"
  have h1: "hist_id (inProgressHistoryMp ?w) = ''MP_A''"
    by (simp add: example_world_def crawling_def)
  have h2: "''MP_A'' \<noteq> []" and h3: "''MP_B'' \<noteq> []" and h4: "''MP_B'' \<noteq> ''MP_A''"
    by simp_all
  have call: "getHistoryMpArticles ''MP_B'' ?w =
     (AwaitFeed ''MP_B'', example_world [example_account] (crawling ''MP_B'' 1) False)"
    by (simp add: getHistoryMpArticles_def example_world_def crawling_def Let_def)
  note t = second_start_takes_over [OF h1 h2 h3 h4, of "example_env (HttpOk [example_article])" 997]
  from t have c1: "getHistoryMpArticles ''MP_A'' ?w = (Returned, ?w)" by blast
  from t have "fst (history_resume (example_env (HttpOk [example_article]))
      (AwaitDelay ''MP_A'' 997) (snd (getHistoryMpArticles ''MP_B'' ?w))) = Returned" by blast
  then have c3: "fst (history_resume (example_env (HttpOk [example_article]))
      (AwaitDelay ''MP_A'' 997) (example_world [example_account] (crawling ''MP_B'' 1) False))
      = Returned"
    unfolding call snd_conv .
  from h1 h2 h3 h4 c1 call c3 show ?thesis by blast
qed

section \<open>C2: when the synchronisation time is written\<close>

text \<open>
  Claim C2 says that \<open>refreshMpArticlesAndUpdateFeed\<close> sets the feed's \<open>syncTime\<close>
  to the current time on every outcome, failures included. The update of the feed is the
  last statement of the \<open>try\<close> block: when the upstream rejects the request and its
  three retries, the fetch throws, the failure result is returned, and both feeds keep
  the \<open>syncTime\<close> 0 they had while the clock reads 1700000000.
\<close>

theorem refresh_syncTime_counterexample:
  "fst (refreshMpArticlesAndUpdateFeed (example_env (HttpError [])) ''MP_A'' 1
          (example_world [example_account] no_crawl False)) = Inr (refresh_failed ''MP_A'') \<and>
   map feed_syncTime (feeds (snd (refreshMpArticlesAndUpdateFeed (example_env (HttpError []))
          ''MP_A'' 1 (example_world [example_account] no_crawl False)))) = [0, 0] \<and>
   now_seconds (example_env (HttpError []))
     (tick (snd (refreshMpArticlesAndUpdateFeed (example_env (HttpError [])) ''MP_A'' 1
          (example_world [example_account] no_crawl False)))) = 1700000000"
  by (simp add: refreshMpArticlesAndUpdateFeed_def try_catch_def refresh_try_def
        example_fetch_upstream_error)
     (simp add: example_defs)

text \<open>
  Claim C2 as amended: when the refresh succeeds (\<open>successCount\<close> is 1), the feed
  exists and its \<open>syncTime\<close> is the time read at an instant of the call; when it
  fails, the feed table is left as it was.
\<close>

theorem refresh_syncTime_on_success:
  assumes "refreshMpArticlesAndUpdateFeed e mpId page w = (Inr result, w')"
  shows "(successCount result = 1 \<longrightarrow>
            mpId \<in> feed_id ` set (feeds w') \<and>
            (\<exists>t. tick w \<le> t \<and> t < tick w' \<and>
                 (\<forall>f \<in> set (feeds w'). feed_id f = mpId \<longrightarrow> feed_syncTime f = now_seconds e t)))
       \<and> (successCount result \<noteq> 1 \<longrightarrow> feeds w' = feeds w)"
proof (cases rule: refresh_try_cases [of e mpId page w])
  case (fetch_raises err w1)
  from getMpArticles_frame [OF fetch_raises(1)] refresh_catch [OF fetch_raises(2)] assms
  show ?thesis by (simp add: refresh_failed_def)
next
  case (store_raises as w1 err w2)
  from getMpArticles_frame [OF store_raises(1)] store_articles_frame [OF store_raises(2)]
    refresh_catch [OF store_raises(3)] assms
  show ?thesis by (simp add: refresh_failed_def)
next
  case (update_raises as w1 u w2 err w3)
  from getMpArticles_frame [OF update_raises(1)] store_articles_frame [OF update_raises(2)]
    feed_update_Inl [OF update_raises(3)] refresh_catch [OF update_raises(4)] assms
  show ?thesis by (simp add: refresh_failed_def)
next
  case (succeeds as w1 u w2 u' w3)
  note f1 = getMpArticles_frame [OF succeeds(1)]
  note f2 = store_articles_frame [OF succeeds(2)]
  note f3 = feed_update_Inr [OF succeeds(3)]
  from refresh_pass [OF succeeds(4)] assms have w': "w' = w3" and sc: "successCount result = 1"
    by auto
  have "tick w \<le> tick w2" using f1 f2 by linarith
  moreover have "tick w2 < tick w'" using f3 w' by simp
  moreover have "\<forall>f \<in> set (feeds w'). feed_id f = mpId \<longrightarrow> feed_syncTime f = now_seconds e (tick w2)"
    using f3 w' by simp
  ultimately have "\<exists>t. tick w \<le> t \<and> t < tick w' \<and>
       (\<forall>f \<in> set (feeds w'). feed_id f = mpId \<longrightarrow> feed_syncTime f = now_seconds e t)"
    by blast
  moreover have "mpId \<in> feed_id ` set (feeds w')" using f3 w' by simp
  ultimately show ?thesis using sc by simp
qed

text \<open>Claim C2, amended, on the example state with an upstream that returns one
  article.\<close>

theorem refresh_syncTime_on_success_witness:
  "refreshMpArticlesAndUpdateFeed (example_env (HttpOk [example_article])) ''MP_A'' 1
       (example_world [example_account] no_crawl False) =
     (Inr \<lparr>message = MsgFeedUpdated ''MP_A'', successCount = 1, errorCount = 0,
           failedFeeds = [], hasHistory = Some 0, articlesCount = 1\<rparr>,
      example_world_after 0
        [\<lparr>article_id = ''art1'', article_mpId = ''MP_A'', article_picUrl = ''pic'',
          article_publishTime = 1699999000, article_title = ''title''\<rparr>] 5) \<and>
   ''MP_A'' \<in> feed_id ` set (feeds (example_world_after 0
        [\<lparr>article_id = ''art1'', article_mpId = ''MP_A'', article_picUrl = ''pic'',
          article_publishTime = 1699999000, article_title = ''title''\<rparr>] 5)) \<and>
   map feed_syncTime (feeds (example_world_after 0
        [\<lparr>article_id = ''art1'', article_mpId = ''MP_A'', article_picUrl = ''pic'',
          article_publishTime = 1699999000, article_title = ''title''\<rparr>] 5)) = [1700000000, 0]"
proof -
  note h = example_refresh_ok
  from refresh_syncTime_on_success [OF h] h show ?thesis
    by (simp add: example_world_after_def example_feed_def)
qed

section \<open>C3: a refresh never throws\<close>

text \<open>
  Claim C3: for every feed id and page, \<open>refreshMpArticlesAndUpdateFeed\<close> returns a
  result and never an exception; whenever its \<open>try\<close> block throws (the fetch, the
  writing of the articles or the update of the feed), the result is exactly
  \<open>{successCount: 0, errorCount: 1, failedFeeds: [mpId], hasHistory: 1,
  articlesCount: 0}\<close> with the failure message.
\<close>

theorem refresh_never_throws:
  "\<exists>result. fst (refreshMpArticlesAndUpdateFeed e mpId page w) = Inr result \<and>
     ((\<exists>err. fst (refresh_try e mpId page w) = Inl err) \<longrightarrow>
        result = \<lparr>message = MsgFeedUpdateFailed mpId, successCount = 0, errorCount = 1,
                  failedFeeds = [mpId], hasHistory = Some 1, articlesCount = 0\<rparr>)"
proof (cases "refresh_try e mpId page w")
  case (Pair r w')
  show ?thesis
  proof (cases r)
    case (Inl err)
    with Pair refresh_catch [of e mpId page w err w'] show ?thesis
      by (simp add: refresh_failed_def)
  next
    case (Inr res)
    with Pair refresh_pass [of e mpId page w res w'] show ?thesis by simp
  qed
qed

text \<open>Claim C3 on the example state without any account: the fetch throws and the
  failure result comes back.\<close>

theorem refresh_never_throws_witness:
  "fst (refresh_try (example_env (HttpError [])) ''MP_A'' 1 (example_world [] no_crawl False)) =
     Inl NoAvailableAccount \<and>
   fst (refreshMpArticlesAndUpdateFeed (example_env (HttpError [])) ''MP_A'' 1
          (example_world [] no_crawl False)) =
     Inr \<lparr>message = MsgFeedUpdateFailed ''MP_A'', successCount = 0, errorCount = 1,
          failedFeeds = [''MP_A''], hasHistory = Some 1, articlesCount = 0\<rparr>"
proof -
  have t: "fst (refresh_try (example_env (HttpError [])) ''MP_A'' 1
              (example_world [] no_crawl False)) = Inl NoAvailableAccount"
    by (simp add: refresh_try_def example_fetch_no_account)
  from refresh_never_throws [of "example_env (HttpError [])" "''MP_A''" 1
         "example_world [] no_crawl False"] t
  show ?thesis by auto
qed

section \<open>C4: a short page ends the history\<close>

text \<open>
  Claim C4: when the fetch returns the page \<open>as\<close> and the refresh succeeds, the
  result counts \<open>length as\<close> articles, and \<open>hasHistory\<close>, in the result and in the
  stored feed, is 0 if \<open>length as < defaultCount\<close> and 1 otherwise.
\<close>

theorem refresh_hasHistory_short_page:
  assumes "getMpArticles e mpId page 3 w = (Inr as, w1)"
    and "refreshMpArticlesAndUpdateFeed e mpId page w = (Inr result, w')"
    and "successCount result = 1"
  shows "articlesCount result = int (length as) \<and>
         hasHistory result = Some (if length as < defaultCount e then 0 else 1) \<and>
         mpId \<in> feed_id ` set (feeds w') \<and>
         (\<forall>f \<in> set (feeds w'). feed_id f = mpId \<longrightarrow>
            feed_hasHistory f = (if length as < defaultCount e then 0 else 1))"
proof (cases rule: refresh_try_cases [of e mpId page w])
  case (fetch_raises err w1')
  with assms(1) show ?thesis by simp
next
  case (store_raises as' w1' err w2)
  from refresh_catch [OF store_raises(3)] assms(2,3) show ?thesis by (simp add: refresh_failed_def)
next
  case (update_raises as' w1' u w2 err w3)
  from refresh_catch [OF update_raises(4)] assms(2,3) show ?thesis by (simp add: refresh_failed_def)
next
  case (succeeds as' w1' u w2 u' w3)
  from succeeds(1) assms(1) have eq: "as' = as" by simp
  from refresh_pass [OF succeeds(4)] assms(2) have w': "w' = w3"
    and res: "result = \<lparr>message = MsgFeedUpdated mpId, successCount = 1, errorCount = 0,
               failedFeeds = [], hasHistory = Some (if length as < defaultCount e then 0 else 1),
               articlesCount = int (length as)\<rparr>"
    unfolding eq by simp_all
  note f3 = feed_update_Inr [OF succeeds(3), unfolded eq, folded w']
  have 1: "articlesCount result = int (length as)" by (simp add: res)
  have 2: "hasHistory result = Some (if length as < defaultCount e then 0 else 1)"
    by (simp add: res)
  from 1 2 f3 show ?thesis by blast
qed

text \<open>Claim C4 on the example state: a page of one article, below the page size of
  20, stores \<open>hasHistory = 0\<close> for \<open>MP_A\<close> and leaves \<open>MP_B\<close> at 1.\<close>

theorem refresh_hasHistory_short_page_witness:
  "getMpArticles (example_env (HttpOk [example_article])) ''MP_A'' 1 3
       (example_world [example_account] no_crawl False) =
     (Inr [example_article], (example_world [example_account] no_crawl False)\<lparr>tick := 3\<rparr>) \<and>
   length [example_article] < defaultCount (example_env (HttpOk [example_article])) \<and>
   hasHistory (\<lparr>message = MsgFeedUpdated ''MP_A'', successCount = 1, errorCount = 0,
           failedFeeds = [], hasHistory = Some 0, articlesCount = 1\<rparr> :: RefreshArticlesResult)
     = Some 0 \<and>
   map feed_hasHistory (feeds (snd (refreshMpArticlesAndUpdateFeed
       (example_env (HttpOk [example_article])) ''MP_A'' 1
       (example_world [example_account] no_crawl False)))) = [0, 1]"
proof -
  note h1 = example_fetch_ok
  note h2 = example_refresh_ok
  have h3: "successCount (\<lparr>message = MsgFeedUpdated ''MP_A'', successCount = 1, errorCount = 0,
           failedFeeds = [], hasHistory = Some 0, articlesCount = 1\<rparr> :: RefreshArticlesResult) = 1"
    by simp
  from refresh_hasHistory_short_page [OF h1 h2 h3] h1 h2 show ?thesis
    by (simp add: example_world_after_def example_feed_def example_env_def)
qed

section \<open>C5: a bulk refresh that is already running\<close>

text \<open>
  Claim C5: when \<open>isRefreshAllMpArticlesRunning\<close> is set,
  \<open>refreshAllMpArticlesAndUpdateFeed\<close> returns
  \<open>{successCount: -1, errorCount: -1, failedFeeds: []}\<close> and the state, flag and
  clock included, is exactly the one it was called in: nothing was refreshed.
\<close>

theorem refreshAll_already_running:
  "isRefreshAllMpArticlesRunning w \<Longrightarrow>
   refreshAllMpArticlesAndUpdateFeed e w =
     (Inr \<lparr>message = MsgAlreadyRunning, successCount = - 1, errorCount = - 1, failedFeeds = []\<rparr>, w)"
  by (simp add: refreshAllMpArticlesAndUpdateFeed_def refresh_all_running_def)

text \<open>Claim C5 on the example state with the flag set.\<close>

theorem refreshAll_already_running_witness:
  "isRefreshAllMpArticlesRunning (example_world [example_account] no_crawl True) \<and>
   refreshAllMpArticlesAndUpdateFeed (example_env (HttpOk [example_article]))
       (example_world [example_account] no_crawl True) =
     (Inr \<lparr>message = MsgAlreadyRunning, successCount = - 1, errorCount = - 1, failedFeeds = []\<rparr>,
      example_world [example_account] no_crawl True)"
proof -
  have h: "isRefreshAllMpArticlesRunning (example_world [example_account] no_crawl True)"
    by (simp add: example_world_def)
  from h refreshAll_already_running [OF h, of "example_env (HttpOk [example_article])"]
  show ?thesis by simp
qed

section \<open>C6: stopping a crawl with the empty id\<close>

text \<open>
  Claim C6: while a crawl of a non-empty feed \<open>mpId\<close> is active, the call with the
  empty id returns at once and leaves the record \<open>{id: '', page: 1}\<close>. The loop of
  \<open>mpId\<close>, when it is resumed after its delay, sees another id in the record and
  returns, and the record is \<open>{id: '', page: 1}\<close>. When the stop arrives while the
  loop awaits a refresh, that refresh ends the loop or leads to the delay, so that two
  resumptions end the call with the same record.
\<close>

theorem stop_request_ends_crawl:
  assumes "mpId \<noteq> []" and "hist_id (inProgressHistoryMp w) = mpId"
  shows "fst (getHistoryMpArticles [] w) = Returned \<and>
         inProgressHistoryMp (snd (getHistoryMpArticles [] w)) = \<lparr>hist_id = [], hist_page = 1\<rparr> \<and>
         fst (history_resume e (AwaitDelay mpId i) (snd (getHistoryMpArticles [] w))) = Returned \<and>
         inProgressHistoryMp (snd (history_resume e (AwaitDelay mpId i)
             (snd (getHistoryMpArticles [] w)))) = \<lparr>hist_id = [], hist_page = 1\<rparr> \<and>
         (fst (history_resume e (AwaitRefresh mpId page i) (snd (getHistoryMpArticles [] w)))
            = Returned \<or>
          fst (history_resume e (AwaitRefresh mpId page i) (snd (getHistoryMpArticles [] w)))
            = AwaitDelay mpId i) \<and>
         fst (history_run e 2 (AwaitRefresh mpId page i, snd (getHistoryMpArticles [] w)))
            = Returned \<and>
         inProgressHistoryMp (snd (history_run e 2 (AwaitRefresh mpId page i,
             snd (getHistoryMpArticles [] w)))) = \<lparr>hist_id = [], hist_page = 1\<rparr>"
proof -
  define w1 where "w1 = snd (getHistoryMpArticles [] w)"
  have call: "getHistoryMpArticles [] w = (Returned, w1)"
    and rec1: "inProgressHistoryMp w1 = \<lparr>hist_id = [], hist_page = 1\<rparr>"
    using assms by (simp_all add: w1_def getHistoryMpArticles_def Let_def)
  have other: "hist_id (inProgressHistoryMp w1) \<noteq> mpId" using assms(1) rec1 by simp
  note d = history_resume_delay_other_id [OF other, of e i]
  have a: "fst (getHistoryMpArticles [] w) = Returned" using call by simp
  have c: "fst (history_resume e (AwaitDelay mpId i) w1) = Returned" using d by simp
  have c': "inProgressHistoryMp (snd (history_resume e (AwaitDelay mpId i) w1)) =
              \<lparr>hist_id = [], hist_page = 1\<rparr>"
    using d by (simp add: history_finally_record)
  have r: "(fst (history_resume e (AwaitRefresh mpId page i) w1) = Returned \<or>
            fst (history_resume e (AwaitRefresh mpId page i) w1) = AwaitDelay mpId i) \<and>
           fst (history_run e 2 (AwaitRefresh mpId page i, w1)) = Returned \<and>
           inProgressHistoryMp (snd (history_run e 2 (AwaitRefresh mpId page i, w1))) =
              \<lparr>hist_id = [], hist_page = 1\<rparr>"
  proof (cases rule: history_resume_refresh_cases [of e mpId page i w1])
    case (ended w2)
    then show ?thesis
      by (simp add: history_run_2 history_resume_def history_finally_record)
  next
    case (delayed w2)
    from delayed(2) other have "hist_id (inProgressHistoryMp w2) \<noteq> mpId" by simp
    from history_resume_delay_other_id [OF this, of e i] delayed(1) show ?thesis
      by (simp add: history_run_2 history_finally_record)
  qed
  from a rec1 c c' r show ?thesis unfolding w1_def [symmetric] by blast
qed

text \<open>Claim C6 on the example state, \<open>MP_A\<close> being crawled at page 3.\<close>

theorem stop_request_ends_crawl_witness:
  "''MP_A'' \<noteq> [] \<and>
   hist_id (inProgressHistoryMp (example_world [example_account] (crawling ''MP_A'' 3) False))
     = ''MP_A'' \<and>
   getHistoryMpArticles [] (example_world [example_account] (crawling ''MP_A'' 3) False) =
     (Returned, example_world [example_account] no_crawl False) \<and>
   history_resume (example_env (HttpOk [example_article])) (AwaitDelay ''MP_A'' 997)
       (example_world [example_account] no_crawl False) =
     (Returned, example_world [example_account] no_crawl False) \<and>
   fst (history_run (example_env (HttpOk [example_article])) 2
          (AwaitRefresh ''MP_A'' 3 997, example_world [example_account] no_crawl False)) = Returned"
proof -
  let ?w = "example_world [example_account] (crawling ''MP_A'' 3) False"
  have h1: "''MP_A'' \<noteq> []" by simp
  have h2: "hist_id (inProgressHistoryMp ?w) = ''MP_A''"
    by (simp add: example_world_def crawling_def)
  have call: "getHistoryMpArticles [] ?w = (Returned, example_world [example_account] no_crawl False)"
    by (simp add: getHistoryMpArticles_def example_world_def crawling_def no_crawl_def)
  have d: "history_resume (example_env (HttpOk [example_article])) (AwaitDelay ''MP_A'' 997)
       (example_world [example_account] no_crawl False) =
     (Returned, example_world [example_account] no_crawl False)"
    by (simp add: history_resume_def history_loop_def history_finally_def example_world_def
          no_crawl_def)
  from stop_request_ends_crawl [OF h1 h2, of "example_env (HttpOk [example_article])" 997 3]
    h1 h2 call d
  show ?thesis by simp
qed

section \<open>C7: the failure set of a round\<close>

text \<open>
  Claim C7: a feed is in the failure set of a round exactly when one of its refreshes
  of that round has \<open>errorCount > 0\<close> or \<open>articlesCount = 0\<close>; the round refreshes
  each feed of its list. Before the last round, a non-empty failure set is the list of
  the next round. The loop is left in one of its eight rounds only with an empty
  failure set.
\<close>

theorem bulk_round_failure_set:
  "(i \<in> set (fst (refresh_round e feedsToUpdate [] w)) \<longleftrightarrow>
      (\<exists>result. (i, Inr result) \<in> set (round_results e feedsToUpdate w) \<and>
                (errorCount result > 0 \<or> articlesCount result = 0))) \<and>
   map fst (round_results e feedsToUpdate w) = feedsToUpdate \<and>
   (round' < maxRounds \<and> fst (refresh_round e feedsToUpdate [] w) \<noteq> [] \<longrightarrow>
      refresh_rounds e round' feedsToUpdate finalFailedFeeds w =
      refresh_rounds e (round' + 1) (fst (refresh_round e feedsToUpdate [] w))
        (fst (refresh_round e feedsToUpdate [] w)) (snd (refresh_round e feedsToUpdate [] w))) \<and>
   (fst (snd (refresh_rounds e 1 feedsToUpdate [] w)) \<le> maxRounds \<longrightarrow>
      fst (refresh_rounds e 1 feedsToUpdate [] w) = [])"
proof -
  have a: "i \<in> set (fst (refresh_round e feedsToUpdate [] w)) \<longleftrightarrow>
      (\<exists>result. (i, Inr result) \<in> set (round_results e feedsToUpdate w) \<and>
                (errorCount result > 0 \<or> articlesCount result = 0))"
    by (simp add: refresh_round_failed_set refresh_unsuccessful_def)
  have c: "round' < maxRounds \<and> fst (refresh_round e feedsToUpdate [] w) \<noteq> [] \<longrightarrow>
      refresh_rounds e round' feedsToUpdate finalFailedFeeds w =
      refresh_rounds e (round' + 1) (fst (refresh_round e feedsToUpdate [] w))
        (fst (refresh_round e feedsToUpdate [] w)) (snd (refresh_round e feedsToUpdate [] w))"
    using refresh_rounds_next [of round' e feedsToUpdate w finalFailedFeeds] by simp
  have d: "fst (snd (refresh_rounds e 1 feedsToUpdate [] w)) \<le> maxRounds \<longrightarrow>
      fst (refresh_rounds e 1 feedsToUpdate [] w) = []"
  proof
    assume le: "fst (snd (refresh_rounds e 1 feedsToUpdate [] w)) \<le> maxRounds"
    obtain ff r w' where eq: "refresh_rounds e 1 feedsToUpdate [] w = (ff, r, w')"
      by (cases "refresh_rounds e 1 feedsToUpdate [] w")
    have "1 \<le> maxRounds" by (simp add: maxRounds_def)
    from refresh_rounds_early_exit [OF eq this] le eq
    show "fst (refresh_rounds e 1 feedsToUpdate [] w) = []" by simp
  qed
  from a round_results_feeds [of e feedsToUpdate w] c d show ?thesis by blast
qed

text \<open>
  Claim C7 on the example state: a refresh that succeeds with zero articles puts
  \<open>MP_A\<close> into the failure set and the second round refreshes it again; with one
  article the loop is left in round 1 with an empty failure set.
\<close>

theorem bulk_round_failure_set_witness:
  "fst (refreshMpArticlesAndUpdateFeed (example_env (HttpOk [])) ''MP_A'' 1
          (example_world [example_account] no_crawl False)) =
     Inr \<lparr>message = MsgFeedUpdated ''MP_A'', successCount = 1, errorCount = 0,
          failedFeeds = [], hasHistory = Some 0, articlesCount = 0\<rparr> \<and>
   ''MP_A'' \<in> set (fst (refresh_round (example_env (HttpOk [])) [''MP_A''] []
                           (example_world [example_account] no_crawl False))) \<and>
   (1::nat) < maxRounds \<and>
   refresh_rounds (example_env (HttpOk [])) 1 [''MP_A''] []
       (example_world [example_account] no_crawl False) =
     refresh_rounds (example_env (HttpOk [])) 2 [''MP_A''] [''MP_A''] (example_world_after 0 [] 4) \<and>
   fst (snd (refresh_rounds (example_env (HttpOk [example_article])) 1 [''MP_A''] []
       (example_world [example_account] no_crawl False))) \<le> maxRounds \<and>
   fst (refresh_rounds (example_env (HttpOk [example_article])) 1 [''MP_A''] []
       (example_world [example_account] no_crawl False)) = []"
proof -
  let ?w = "example_world [example_account] no_crawl False"
  have r0: "refresh_round (example_env (HttpOk [])) [''MP_A''] [] ?w =
              ([''MP_A''], example_world_after 0 [] 4)"
    by (simp add: example_refresh_empty refresh_unsuccessful_def set_add_def)
  have m: "(1::nat) < maxRounds" by (simp add: maxRounds_def)
  have r1: "refresh_rounds (example_env (HttpOk [example_article])) 1 [''MP_A''] [] ?w =
              ([], 1, example_world_after 0
        [\<lparr>article_id = ''art1'', article_mpId = ''MP_A'', article_picUrl = ''pic'',
          article_publishTime = 1699999000, article_title = ''title''\<rparr>] 5)"
    by (simp add: refresh_rounds.simps [of _ "Suc 0"] maxRounds_def example_refresh_ok
          refresh_unsuccessful_def)
  have c1: "fst (refreshMpArticlesAndUpdateFeed (example_env (HttpOk [])) ''MP_A'' 1 ?w) =
     Inr \<lparr>message = MsgFeedUpdated ''MP_A'', successCount = 1, errorCount = 0,
          failedFeeds = [], hasHistory = Some 0, articlesCount = 0\<rparr>"
    by (simp add: example_refresh_empty)
  have c2: "''MP_A'' \<in> set (fst (refresh_round (example_env (HttpOk [])) [''MP_A''] [] ?w))"
    unfolding r0 by simp
  have ne: "fst (refresh_round (example_env (HttpOk [])) [''MP_A''] [] ?w) \<noteq> []"
    unfolding r0 by simp
  from bulk_round_failure_set [of "''MP_A''" "example_env (HttpOk [])" "[''MP_A'']" ?w 1 "[]"] m ne
  have "refresh_rounds (example_env (HttpOk [])) 1 [''MP_A''] [] ?w =
      refresh_rounds (example_env (HttpOk [])) (1 + 1)
        (fst (refresh_round (example_env (HttpOk [])) [''MP_A''] [] ?w))
        (fst (refresh_round (example_env (HttpOk [])) [''MP_A''] [] ?w))
        (snd (refresh_round (example_env (HttpOk [])) [''MP_A''] [] ?w))"
    by blast
  then have c3: "refresh_rounds (example_env (HttpOk [])) 1 [''MP_A''] [] ?w =
     refresh_rounds (example_env (HttpOk [])) 2 [''MP_A''] [''MP_A''] (example_world_after 0 [] 4)"
    unfolding r0 fst_conv snd_conv by (simp only: one_add_one)
  have c4: "fst (snd (refresh_rounds (example_env (HttpOk [example_article])) 1 [''MP_A''] [] ?w))
              \<le> maxRounds"
    unfolding r1 by (simp add: maxRounds_def)
  from bulk_round_failure_set [of "''MP_A''" "example_env (HttpOk [example_article])"
         "[''MP_A'']" ?w 1 "[]"] c4
  have c5: "fst (refresh_rounds (example_env (HttpOk [example_article])) 1 [''MP_A''] [] ?w) = []"
    by blast
  from c1 c2 m c3 c4 c5 show ?thesis by blast
qed

section \<open>C8: the account that is selected\<close>

text \<open>
  Claim C8: an account is quarantined today when its id is an entry of the list that
  \<open>blockedAccountsMap\<close> holds for today's date (the code drops the falsy entries of
  that list, so an empty entry bars no account; the interceptor never pushes one).
  When the query is answered and \<open>Math.random\<close> draws from \<open>[0, 1)\<close>,
  \<open>getAvailableAccount\<close> returns one of the first ten stored accounts that are
  enabled and not quarantined today if there is such an account, and throws the
  no-account error if there is none. When today's list has no empty entry, these are
  the enabled accounts whose id is not in the list.
\<close>

theorem getAvailableAccount_selects:
  assumes "\<not> db_fault e (tick w)"
    and "0 \<le> random e (Suc (tick w))" and "random e (Suc (tick w)) < 1"
  shows "let ledger = (case blockedAccountsMap w (today_string e (tick w)) of
                         None \<Rightarrow> [] | Some l \<Rightarrow> l);
             eligible = filter (\<lambda>a. account_status a = ENABLE \<and>
                                   (account_id a \<in> set ledger \<longrightarrow> account_id a = []))
                          (accounts w)
         in (eligible \<noteq> [] \<longrightarrow>
               (\<exists>a. fst (getAvailableAccount e w) = Inr (Some a) \<and> a \<in> set (take 10 eligible) \<and>
                    a \<in> set (accounts w) \<and> account_status a = ENABLE \<and>
                    (account_id a \<in> set ledger \<longrightarrow> account_id a = [])))
          \<and> (eligible = [] \<longrightarrow> fst (getAvailableAccount e w) = Inl NoAvailableAccount)
          \<and> ([] \<notin> set ledger \<longrightarrow>
                eligible = filter (\<lambda>a. account_status a = ENABLE \<and> account_id a \<notin> set ledger)
                             (accounts w))"
proof -
  define ledger where "ledger = (case blockedAccountsMap w (today_string e (tick w)) of
                         None \<Rightarrow> [] | Some l \<Rightarrow> l)"
  define eligible where "eligible = filter (\<lambda>a. account_status a = ENABLE \<and>
                                   (account_id a \<in> set ledger \<longrightarrow> account_id a = []))
                          (accounts w)"
  define queried where "queried = take 10 eligible"
  define w1 where "w1 = w\<lparr>tick := tick w + 1\<rparr>"
  have ids: "set (getBlockedAccountIds e w) = {i \<in> set ledger. i \<noteq> []}"
    by (auto simp: getBlockedAccountIds_def getTodayDate_def ledger_def)
  have same: "filter (\<lambda>a. account_status a = ENABLE \<and>
                  account_id a \<notin> set (getBlockedAccountIds e w)) (accounts w) = eligible"
    unfolding eligible_def ids by (rule filter_cong) auto
  have fm: "account_findMany e (getBlockedAccountIds e w) w = (Inr queried, w1)"
    using assms(1)
    by (simp add: account_findMany_def prisma_def same queried_def w1_def Let_def)
  have t1: "tick w1 = Suc (tick w)" by (simp add: w1_def)
  have empty_iff: "queried = [] \<longleftrightarrow> eligible = []" by (simp add: queried_def)
  have none: "eligible = [] \<Longrightarrow> fst (getAvailableAccount e w) = Inl NoAvailableAccount"
    using fm empty_iff by (simp add: getAvailableAccount_def Let_def)
  have some: "\<exists>a. fst (getAvailableAccount e w) = Inr (Some a) \<and> a \<in> set queried \<and>
                    a \<in> set (accounts w) \<and> account_status a = ENABLE \<and>
                    (account_id a \<in> set ledger \<longrightarrow> account_id a = [])"
    if ne: "eligible \<noteq> []"
  proof -
    define k where "k = \<lfloor>random e (Suc (tick w)) * real (length queried)\<rfloor>"
    have npos: "0 < length queried" using ne empty_iff by simp
    have kr: "0 \<le> k \<and> k < int (length queried)"
      unfolding k_def using floor_index_in_range [OF assms(2) assms(3) npos] .
    have nonneg: "0 \<le> random e (Suc (tick w)) * real (length queried)"
      using assms(2) by simp
    have res: "fst (getAvailableAccount e w) = Inr (Some (queried ! nat k))"
      using fm npos kr nonneg
      by (simp add: getAvailableAccount_def Let_def t1 k_def [symmetric])
    have "nat k < length queried" using kr by linarith
    then have q: "queried ! nat k \<in> set queried" by (rule nth_mem)
    then have "queried ! nat k \<in> set eligible"
      unfolding queried_def by (rule in_set_takeD)
    then have "queried ! nat k \<in> set (accounts w) \<and> account_status (queried ! nat k) = ENABLE \<and>
               (account_id (queried ! nat k) \<in> set ledger \<longrightarrow> account_id (queried ! nat k) = [])"
      unfolding eligible_def by simp
    with res q show ?thesis by blast
  qed
  have plain: "[] \<notin> set ledger \<Longrightarrow>
       eligible = filter (\<lambda>a. account_status a = ENABLE \<and> account_id a \<notin> set ledger) (accounts w)"
    unfolding eligible_def by (rule filter_cong) auto
  show ?thesis
    unfolding Let_def ledger_def [symmetric] eligible_def [symmetric] queried_def [symmetric]
    using none some plain by blast
qed

text \<open>
  Claim C8 on the pool of thirteen accounts with \<open>a02\<close> quarantined today: the draw
  0.95 selects \<open>a12\<close>, the tenth of the eleven eligible accounts, the draw 0 selects
  \<open>a03\<close>, passing over the invalid \<open>a01\<close> and the quarantined \<open>a02\<close>; with only
  \<open>a01\<close> and \<open>a02\<close> stored, the no-account error is thrown.
\<close>

theorem getAvailableAccount_selects_witness:
  "\<not> db_fault (example_env_drawing (95 / 100)) (tick (example_quarantine example_pool [''a02''])) \<and>
   0 \<le> random (example_env_drawing (95 / 100)) (Suc (tick (example_quarantine example_pool [''a02'']))) \<and>
   random (example_env_drawing (95 / 100)) (Suc (tick (example_quarantine example_pool [''a02'']))) < 1 \<and>
   blockedAccountsMap (example_quarantine example_pool [''a02''])
       (today_string (example_env_drawing (95 / 100)) (tick (example_quarantine example_pool [''a02'']))) =
     Some [''a02''] \<and>
   fst (getAvailableAccount (example_env_drawing (95 / 100)) (example_quarantine example_pool [''a02''])) =
     Inr (Some (numbered_account ''a12'' ENABLE)) \<and>
   fst (getAvailableAccount (example_env_drawing 0) (example_quarantine example_pool [''a02''])) =
     Inr (Some (numbered_account ''a03'' ENABLE)) \<and>
   fst (getAvailableAccount (example_env_drawing (95 / 100))
          (example_quarantine [numbered_account ''a01'' INVALID, numbered_account ''a02'' ENABLE]
             [''a02''])) = Inl NoAvailableAccount"
proof -
  let ?e = "example_env_drawing (95 / 100)"
  let ?w = "example_quarantine example_pool [''a02'']"
  let ?v = "example_quarantine [numbered_account ''a01'' INVALID, numbered_account ''a02'' ENABLE]
              [''a02'']"
  note h1 = pool_no_fault [of "95 / 100" "tick ?w"]
  have h2: "0 \<le> random ?e (Suc (tick ?w))" by (simp add: pool_draw)
  have h3: "random ?e (Suc (tick ?w)) < 1" by (simp add: pool_draw)
  note led = pool_ledger [of example_pool "[''a02'']" "95 / 100" "tick ?w"]
  note g1 = pool_no_fault [of "95 / 100" "tick ?v"]
  have g2: "0 \<le> random ?e (Suc (tick ?v))" by (simp add: pool_draw)
  have g3: "random ?e (Suc (tick ?v)) < 1" by (simp add: pool_draw)
  have none: "filter (\<lambda>a. account_status a = ENABLE \<and>
                 (account_id a \<in> set [''a02''] \<longrightarrow> account_id a = [])) (accounts ?v) = []"
    by (simp add: pool_accounts numbered_account_def)
  from getAvailableAccount_selects [OF g1 g2 g3]
  have c3: "fst (getAvailableAccount ?e ?v) = Inl NoAvailableAccount"
    unfolding Let_def pool_ledger option.case none by (rule conjunct1 [OF conjunct2, THEN mp]) simp
  from h1 h2 h3 led pool_select_last pool_select_first c3 show ?thesis
    by (intro conjI)
qed

section \<open>C9: quarantine needs today's list\<close>

text \<open>
  Claim C9: when the interceptor reaches its quarantine step for a request that carried
  the non-empty account id \<open>i\<close>, the id is appended to today's list if the map has a
  list for today, and the map is left unchanged if it has none.
\<close>

theorem quarantine_needs_todays_list:
  assumes "interceptor_classify e errMsg (Some i) w = (Inr (), w1)" and "i \<noteq> []"
  shows "blockedAccountsMap (snd (interceptor_onRejected e errMsg (Some i) w)) =
           (case blockedAccountsMap w (getTodayDate e w1) of
              Some blockedAccounts \<Rightarrow>
                (blockedAccountsMap w)(getTodayDate e w1 \<mapsto> blockedAccounts @ [i])
            | None \<Rightarrow> blockedAccountsMap w)"
proof -
  have "blockedAccountsMap w1 = blockedAccountsMap w"
    using interceptor_classify_blocked [of e errMsg "Some i" w] assms(1) by simp
  then show ?thesis
    using assms
    by (simp add: interceptor_onRejected_def interceptor_quarantine_def Let_def split: option.splits)
qed

text \<open>Claim C9 on the example state, once with a list for today and once without.\<close>

theorem quarantine_needs_todays_list_witness:
  "interceptor_classify (example_env (HttpError [])) [] (Some ''acc1'')
       ((example_world [example_account] no_crawl False)
          \<lparr>blockedAccountsMap := [''2024-05-01'' \<mapsto> [''acc0'']]\<rparr>) =
     (Inr (), (example_world [example_account] no_crawl False)
          \<lparr>blockedAccountsMap := [''2024-05-01'' \<mapsto> [''acc0'']]\<rparr>) \<and>
   ''acc1'' \<noteq> [] \<and>
   blockedAccountsMap (snd (interceptor_onRejected (example_env (HttpError [])) [] (Some ''acc1'')
       ((example_world [example_account] no_crawl False)
          \<lparr>blockedAccountsMap := [''2024-05-01'' \<mapsto> [''acc0'']]\<rparr>)))
     = [''2024-05-01'' \<mapsto> [''acc0'', ''acc1'']] \<and>
   interceptor_classify (example_env (HttpError [])) [] (Some ''acc1'')
       (example_world [example_account] no_crawl False) =
     (Inr (), example_world [example_account] no_crawl False) \<and>
   blockedAccountsMap (snd (interceptor_onRejected (example_env (HttpError [])) [] (Some ''acc1'')
       (example_world [example_account] no_crawl False))) = Map.empty"
proof -
  let ?e = "example_env (HttpError [])"
  let ?v = "example_world [example_account] no_crawl False"
  let ?w = "?v\<lparr>blockedAccountsMap := [''2024-05-01'' \<mapsto> [''acc0'']]\<rparr>"
  have h1: "interceptor_classify ?e [] (Some ''acc1'') ?w = (Inr (), ?w)"
    by (simp add: interceptor_classify_def str_includes_def)
  have h2: "''acc1'' \<noteq> []" by simp
  have day: "getTodayDate ?e ?w = ''2024-05-01''" "getTodayDate ?e ?v = ''2024-05-01''"
    by (simp_all add: getTodayDate_def example_env_def)
  have m: "blockedAccountsMap ?w = [''2024-05-01'' \<mapsto> [''acc0'']]"
    and m0: "blockedAccountsMap ?v = Map.empty"
    by (simp_all add: example_world_def)
  have c1: "blockedAccountsMap (snd (interceptor_onRejected ?e [] (Some ''acc1'') ?w)) =
              [''2024-05-01'' \<mapsto> [''acc0'', ''acc1'']]"
    using quarantine_needs_todays_list [OF h1 h2] by (simp add: day m)
  have h1': "interceptor_classify ?e [] (Some ''acc1'') ?v = (Inr (), ?v)"
    by (simp add: interceptor_classify_def str_includes_def)
  have c2: "blockedAccountsMap (snd (interceptor_onRejected ?e [] (Some ''acc1'') ?v)) = Map.empty"
    using quarantine_needs_todays_list [OF h1' h2] by (simp add: day m0)
  from h1 h2 c1 h1' c2 show ?thesis by blast
qed

section \<open>C10: the first page of a crawl without stored articles\<close>

text \<open>
  Claim C10: for a feed that is found with \<open>hasHistory\<close> other than 0 and has no
  stored article, a crawl that starts (the storage answering both queries, the page size
  positive) sets the page to \<open>ceil(0 / defaultCount) = 0\<close>, and its first refresh is
  called with page 0.
\<close>

theorem history_starts_at_page_zero:
  assumes "mpId \<noteq> []" and "hist_id (inProgressHistoryMp w) \<noteq> mpId"
    and "0 < defaultCount e"
    and "\<not> db_fault e (tick w)" and "\<not> db_fault e (Suc (tick w))"
    and "find (\<lambda>f. feed_id f = mpId) (feeds w) = Some feed" and "feed_hasHistory feed \<noteq> 0"
    and "filter (\<lambda>r. article_mpId r = mpId) (articles w) = []"
  shows "fst (history_run e 2 (getHistoryMpArticles mpId w)) = AwaitRefresh mpId 0 999"
proof -
  define w0 where "w0 = w\<lparr>inProgressHistoryMp := \<lparr>hist_id = mpId, hist_page = 1\<rparr>\<rparr>"
  define w1 where "w1 = w0\<lparr>tick := tick w0 + 1\<rparr>"
  define w2 where "w2 = w1\<lparr>tick := tick w1 + 1\<rparr>"
  have call: "getHistoryMpArticles mpId w = (AwaitFeed mpId, w0)"
    using assms(1,2) by (simp add: getHistoryMpArticles_def Let_def w0_def)
  have s1: "history_resume e (AwaitFeed mpId) w0 = (AwaitCount mpId, w1)"
    using assms(4,6,7)
    by (simp add: history_resume_def feed_findFirstOrThrow_def prisma_def Let_def w0_def w1_def)
  have cnt: "article_count e mpId w1 = (Inr 0, w2)"
    using assms(5,8)
    by (simp add: article_count_def prisma_def Let_def w0_def w1_def w2_def)
  have s2: "history_resume e (AwaitCount mpId) w1 =
              (AwaitRefresh mpId 0 999,
               w2\<lparr>inProgressHistoryMp := (inProgressHistoryMp w2)\<lparr>hist_page := 0\<rparr>\<rparr>)"
    by (simp add: history_resume_def cnt history_loop_def) (simp add: w2_def w1_def w0_def)
  show ?thesis by (simp add: history_run_2 call s1 s2)
qed

text \<open>Claim C10 on the example state, which stores no article.\<close>

theorem history_starts_at_page_zero_witness:
  "''MP_A'' \<noteq> [] \<and>
   hist_id (inProgressHistoryMp (example_world [example_account] no_crawl False)) \<noteq> ''MP_A'' \<and>
   0 < defaultCount (example_env (HttpOk [])) \<and>
   find (\<lambda>f. feed_id f = ''MP_A'') (feeds (example_world [example_account] no_crawl False)) =
     Some (example_feed ''MP_A'') \<and>
   feed_hasHistory (example_feed ''MP_A'') \<noteq> 0 \<and>
   filter (\<lambda>r. article_mpId r = ''MP_A'')
     (articles (example_world [example_account] no_crawl False)) = [] \<and>
   fst (history_run (example_env (HttpOk [])) 2
          (getHistoryMpArticles ''MP_A'' (example_world [example_account] no_crawl False))) =
     AwaitRefresh ''MP_A'' 0 999"
proof -
  let ?e = "example_env (HttpOk [])"
  let ?w = "example_world [example_account] no_crawl False"
  have h1: "''MP_A'' \<noteq> []" by simp
  have h2: "hist_id (inProgressHistoryMp ?w) \<noteq> ''MP_A''"
    by (simp add: example_world_def no_crawl_def)
  have h3: "0 < defaultCount ?e" by (simp add: example_env_def)
  have h4: "\<not> db_fault ?e (tick ?w)" and h5: "\<not> db_fault ?e (Suc (tick ?w))"
    by (simp_all add: example_env_def)
  have h6: "find (\<lambda>f. feed_id f = ''MP_A'') (feeds ?w) = Some (example_feed ''MP_A'')"
    by (simp add: example_world_def example_feed_def)
  have h7: "feed_hasHistory (example_feed ''MP_A'') \<noteq> 0" by (simp add: example_feed_def)
  have h8: "filter (\<lambda>r. article_mpId r = ''MP_A'') (articles ?w) = []"
    by (simp add: example_world_def)
  from history_starts_at_page_zero [OF h1 h2 h3 h4 h5 h6 h7 h8] h1 h2 h3 h6 h7 h8
  show ?thesis by simp
qed

end
